theory Spec2Isabelle
  imports Main "HOL-Library.Sublist"
begin

section \<open>JavaScript values and the manifest\<close>

text \<open>
  The script \<^verbatim>\<open>tools/sync-components.js\<close> reads a manifest of component records
  (module \<^verbatim>\<open>./components\<close>), reads one markdown file per record from a temporary
  directory, and writes a normalised markdown file below \<^verbatim>\<open>source/\<close>.

  A record's \<^verbatim>\<open>preview\<close> field is an arbitrary JavaScript value; the script tests it
  with \<^verbatim>\<open>=== undefined\<close> and coerces it with \<^verbatim>\<open>!!\<close>. The command line values
  produced by minimist are JavaScript values as well (a string, a number, \<^verbatim>\<open>true\<close>
  or undefined).
\<close>

datatype js_value = JUndefined | JNull | JBool bool | JNum int | JStr string

fun truthy :: "js_value \<Rightarrow> bool" where
  "truthy JUndefined = False"
| "truthy JNull = False"
| "truthy (JBool b) = b"
| "truthy (JNum n) = (n \<noteq> 0)"
| "truthy (JStr s) = (s \<noteq> [])"

record ComponentRecord =
  name :: string
  readme :: string
  output_path :: string
  preview :: js_value

section \<open>Paths\<close>

text \<open>
  An absolute, normalised POSIX path is the list of its segments below the root.
  \<open>path_resolve base ss\<close> is \<^verbatim>\<open>path.resolve(base, ...ss)\<close> for an absolute
  \<open>base\<close>: an absolute argument replaces what came before it, empty segments and
  \<^verbatim>\<open>.\<close> are dropped, and \<^verbatim>\<open>..\<close> removes the last segment (staying at the root).
\<close>

type_synonym path = "string list"

fun split_sep :: "string \<Rightarrow> string list" where
  "split_sep [] = [[]]"
| "split_sep (c # cs) =
     (if c = CHR ''/'' then [] # split_sep cs
      else (case split_sep cs of [] \<Rightarrow> [[c]] | seg # segs \<Rightarrow> (c # seg) # segs))"

definition is_absolute :: "string \<Rightarrow> bool" where
  "is_absolute s = (case s of [] \<Rightarrow> False | c # _ \<Rightarrow> c = CHR ''/'')"

definition norm_step :: "path \<Rightarrow> string \<Rightarrow> path" where
  "norm_step acc seg =
     (if seg = [] \<or> seg = ''.'' then acc
      else if seg = ''..'' then butlast acc
      else acc @ [seg])"

definition resolve1 :: "path \<Rightarrow> string \<Rightarrow> path" where
  "resolve1 base s = foldl norm_step (if is_absolute s then [] else base) (split_sep s)"

definition path_resolve :: "path \<Rightarrow> string list \<Rightarrow> path" where
  "path_resolve base ss = foldl resolve1 base ss"

definition path_dirname :: "path \<Rightarrow> path" where
  "path_dirname p = butlast p"

section \<open>The file system, the console and the state of a run\<close>

datatype node = File string | Dir

type_synonym filesystem = "path \<Rightarrow> node option"

datatype js_error = ENOENT path | EISDIR path | ENOTDIR path | EEXIST path
  | TypeError | UtilError string

text \<open>
  The texts printed by the script are template strings with one interpolated value; each
  template is a constructor carrying that value:
  \<^item> \<open>NotExist p\<close>: the rejection text of lines 45, 54, 94 and 103 (the path, then a
    fixed suffix);
  \<^item> \<open>SyncOk out\<close>: the line of lines 73 and 122 (\<^verbatim>\<open>val.output\<close>, then a fixed suffix);
  \<^item> \<open>LocalCoreMissing p\<close>, \<open>LocalExtensionsMissing p\<close>: the errors of lines 153 and 189;
  \<^item> \<open>LoadLocalCore p\<close>, \<open>LoadLocalExtensions p\<close>: the lines of lines 156 and 192;
  \<^item> \<open>SyncStart\<close>, \<open>SyncSuccess\<close>: the fixed lines of lines 220 and 226.
\<close>

datatype message =
    NotExist path
  | SyncOk string
  | LocalCoreMissing path
  | LoadLocalCore path
  | LocalExtensionsMissing path
  | LoadLocalExtensions path
  | SyncStart
  | SyncSuccess

text \<open>What a promise is rejected with: a text, or an exception thrown in an executor.\<close>

datatype reason = Message message | Thrown js_error

text \<open>
  Every effect of the script is recorded, in the order in which it happens:
  console output, file system calls that completed, the start of a download or of an
  extraction, and the end of the process.
\<close>

datatype event =
    Info message
  | Error reason
  | ReadFile path
  | Mkdirp path
  | WriteFile path string
  | CopyDir path path
  | DownGit string path
  | UnzipFile path
  | Rimraf path
  | Uncaught js_error
  | Exit nat

record state =
  fs :: filesystem
  trace :: "event list"

definition emit :: "event \<Rightarrow> state \<Rightarrow> state" where
  "emit ev s = s\<lparr>trace := trace s @ [ev]\<rparr>"

definition reporter_info :: "message \<Rightarrow> state \<Rightarrow> state" where
  "reporter_info m s = emit (Info m) s"

definition reporter_error :: "reason \<Rightarrow> state \<Rightarrow> state" where
  "reporter_error r s = emit (Error r) s"

definition process_exit :: "nat \<Rightarrow> state \<Rightarrow> state" where
  "process_exit n s = emit (Exit n) s"

subsection \<open>Node's synchronous file system calls\<close>

definition is_file :: "node option \<Rightarrow> bool" where
  "is_file n = (case n of Some (File _) \<Rightarrow> True | _ \<Rightarrow> False)"

text \<open>\<^verbatim>\<open>fs.readFileSync(p).toString()\<close>: throws when \<open>p\<close> is absent or a directory.\<close>

definition readFileSync :: "path \<Rightarrow> state \<Rightarrow> js_error + string \<times> state" where
  "readFileSync p s =
     (case fs s p of
        None \<Rightarrow> Inl (ENOENT p)
      | Some Dir \<Rightarrow> Inl (EISDIR p)
      | Some (File text) \<Rightarrow> Inr (text, emit (ReadFile p) s))"

text \<open>
  \<^verbatim>\<open>mkdirp.sync(p)\<close>: creates \<open>p\<close> and every missing ancestor; throws when \<open>p\<close> or an
  ancestor is a file.
\<close>

definition mkdirp_sync :: "path \<Rightarrow> state \<Rightarrow> js_error + state" where
  "mkdirp_sync p s =
     (if list_ex (\<lambda>q. is_file (fs s q)) (prefixes p) then Inl (EEXIST p)
      else Inr (emit (Mkdirp p) (s\<lparr>fs := (\<lambda>q. if prefix q p then Some Dir else fs s q)\<rparr>)))"

text \<open>
  \<^verbatim>\<open>fs.writeFileSync(p, text)\<close>: creates or overwrites the file; throws when \<open>p\<close> is a
  directory or its parent is not a directory.
\<close>

definition writeFileSync :: "path \<Rightarrow> string \<Rightarrow> state \<Rightarrow> js_error + state" where
  "writeFileSync p text s =
     (if fs s p = Some Dir then Inl (EISDIR p)
      else if fs s (path_dirname p) \<noteq> Some Dir then Inl (ENOENT p)
      else Inr (emit (WriteFile p text) (s\<lparr>fs := (fs s)(p \<mapsto> File text)\<rparr>)))"

text \<open>\<^verbatim>\<open>rimraf.sync(p)\<close>: removes \<open>p\<close> and everything below it; an absent \<open>p\<close> is fine.\<close>

definition rimraf_sync :: "path \<Rightarrow> state \<Rightarrow> state" where
  "rimraf_sync p s = emit (Rimraf p) (s\<lparr>fs := (\<lambda>q. if prefix p q then None else fs s q)\<rparr>)"

section \<open>The helper modules\<close>

text \<open>
  The modules \<^verbatim>\<open>./util\<close> and \<^verbatim>\<open>./components\<close> are parameters of the model. The
  two predicates read the file system; the parser, the preset reader and the serialiser
  may throw; \<open>downGit\<close> and \<open>unzipFile\<close> give what the file system holds once the
  download or the extraction has completed, or the error their promise is rejected with.
\<close>

record 'd ParsedDocument =
  title :: string
  content :: string
  deps :: 'd

datatype ('d, 'p) Setting =
  Setting (setting_deps: 'd) (setting_name: string) (setting_preset: 'p) (setting_preview: bool)

datatype ('d, 'p) Document =
  Document (doc_title: string) (doc_content: string) (setting: "('d, 'p) Setting")

record ('d, 'p) util =
  isDirectory :: "filesystem \<Rightarrow> path \<Rightarrow> bool"
  fileExists :: "filesystem \<Rightarrow> path \<Rightarrow> bool"
  parseMarkdown :: "string \<Rightarrow> js_error + 'd ParsedDocument"
  readPreset :: "filesystem \<Rightarrow> path \<Rightarrow> js_error + 'p"
  toMarkdown :: "('d, 'p) Document \<Rightarrow> js_error + string"
  downGit :: "string \<Rightarrow> path \<Rightarrow> filesystem \<Rightarrow> js_error + filesystem \<times> path"
  unzipFile :: "path \<Rightarrow> filesystem \<Rightarrow> js_error + filesystem"

record components =
  getCore :: "ComponentRecord list"
  getExtensions :: "ComponentRecord list"

section \<open>The document processors\<close>

text \<open>Lines 24 and 32: both constants are computed from the script's directory.\<close>

definition BASE_URL :: "path \<Rightarrow> path" where
  "BASE_URL dirname = path_resolve dirname [''..'']"

definition TOOLS_PATH :: "path \<Rightarrow> path" where
  "TOOLS_PATH dirname = path_resolve (BASE_URL dirname) [''tools'']"

text \<open>The object literal handed to \<^verbatim>\<open>util.toMarkdown\<close> (lines 62-71 and 111-120).\<close>

definition recordDocument ::
  "'d ParsedDocument \<Rightarrow> ComponentRecord \<Rightarrow> 'p \<Rightarrow> ('d, 'p) Document" where
  "recordDocument data val preset =
     Document (title data) (content data)
       (Setting (deps data) (name val) preset
          (if preview val = JUndefined then True else truthy (preview val)))"

text \<open>
  The executor of the promise made for one record (lines 49-76, and again lines 98-125
  with \<^verbatim>\<open>extensionsDir\<close> for \<^verbatim>\<open>masterPath\<close>). The executor runs synchronously inside
  \<^verbatim>\<open>new Promise\<close>; an exception thrown in it rejects the promise. The result is the
  settled state of the promise and the state of the run after the executor.
\<close>

definition syncRecord ::
  "('d, 'p) util \<Rightarrow> path \<Rightarrow> path \<Rightarrow> ComponentRecord \<Rightarrow> state \<Rightarrow> (reason + unit) \<times> state" where
  "syncRecord u dirname dir val s =
     (let markdownFile = path_resolve dir [readme val];
          outputFilePath = path_resolve (BASE_URL dirname) [''source'', output_path val]
      in if \<not> fileExists u (fs s) markdownFile
         then (Inl (Message (NotExist markdownFile)), s)
         else
           (case readFileSync markdownFile s of
              Inl e \<Rightarrow> (Inl (Thrown e), s)
            | Inr (text, s1) \<Rightarrow>
           (case parseMarkdown u text of
              Inl e \<Rightarrow> (Inl (Thrown e), s1)
            | Inr data \<Rightarrow>
           (case readPreset u (fs s1) (path_dirname markdownFile) of
              Inl e \<Rightarrow> (Inl (Thrown e), s1)
            | Inr preset \<Rightarrow>
           (case mkdirp_sync (path_dirname outputFilePath) s1 of
              Inl e \<Rightarrow> (Inl (Thrown e), s1)
            | Inr s2 \<Rightarrow>
           (case toMarkdown u (recordDocument data val preset) of
              Inl e \<Rightarrow> (Inl (Thrown e), s2)
            | Inr out \<Rightarrow>
           (case writeFileSync outputFilePath out s2 of
              Inl e \<Rightarrow> (Inl (Thrown e), s2)
            | Inr s3 \<Rightarrow> (Inr (), reporter_info (SyncOk (output_path val)) s3))))))))"

text \<open>
  \<^verbatim>\<open>list.map(val => new Promise(...))\<close>: the executors run one after the other, in the
  order of the list, each on the state the previous one left.
\<close>

fun mapRecords ::
  "(ComponentRecord \<Rightarrow> state \<Rightarrow> 'r \<times> state) \<Rightarrow> ComponentRecord list \<Rightarrow> state \<Rightarrow> 'r list \<times> state" where
  "mapRecords f [] s = ([], s)"
| "mapRecords f (val # vals) s =
     (case f val s of (r, s1) \<Rightarrow>
        (case mapRecords f vals s1 of (rs, s2) \<Rightarrow> (r # rs, s2)))"

text \<open>
  \<^verbatim>\<open>Promise.all\<close> over promises that are all settled already: it is rejected with the
  reason of the first rejected promise of the list, and fulfilled when there is none.
\<close>

fun promise_all :: "(reason + unit) list \<Rightarrow> reason + unit" where
  "promise_all [] = Inr ()"
| "promise_all (Inl e # rs) = Inl e"
| "promise_all (Inr _ # rs) = promise_all rs"

definition coreProcessor ::
  "('d, 'p) util \<Rightarrow> components \<Rightarrow> path \<Rightarrow> state \<Rightarrow> (reason + unit) \<times> state" where
  "coreProcessor u c dirname s =
     (let masterPath = path_resolve (TOOLS_PATH dirname) [''mip-master'']
      in if \<not> isDirectory u (fs s) masterPath
         then (Inl (Message (NotExist masterPath)), s)
         else (case mapRecords (syncRecord u dirname masterPath) (getCore c) s of
                 (processor, s1) \<Rightarrow> (promise_all processor, s1)))"

definition extensionsProcessor ::
  "('d, 'p) util \<Rightarrow> components \<Rightarrow> path \<Rightarrow> state \<Rightarrow> (reason + unit) \<times> state" where
  "extensionsProcessor u c dirname s =
     (let extensionsDir = path_resolve (TOOLS_PATH dirname) [''mip-extensions-master'']
      in if \<not> isDirectory u (fs s) extensionsDir
         then (Inl (Message (NotExist extensionsDir)), s)
         else (case mapRecords (syncRecord u dirname extensionsDir) (getExtensions c) s of
                 (processor, s1) \<Rightarrow> (promise_all processor, s1)))"

section \<open>Copying a local directory\<close>

text \<open>
  \<^verbatim>\<open>copydir.sync(from, to, filter)\<close> of the package copy-dir walks the tree below
  \<open>from\<close>; for each entry it calls \<open>filter\<close> with the kind of the entry
  (\<^verbatim>\<open>'file'\<close> or \<^verbatim>\<open>'directory'\<close>), its full path and its name, copies the entry when
  the answer is true, and descends into a directory only when it has been copied.
  \<open>copied f fsys from rel\<close> says that the walk reaches the entry \<open>from @ rel\<close> and
  copies it. The call throws when \<open>from\<close> is not a directory or \<open>to\<close> is a file.
\<close>

definition stat_of :: "node \<Rightarrow> string" where
  "stat_of n = (case n of File _ \<Rightarrow> ''file'' | Dir \<Rightarrow> ''directory'')"

fun copied :: "(string \<Rightarrow> path \<Rightarrow> string \<Rightarrow> bool) \<Rightarrow> filesystem \<Rightarrow> path \<Rightarrow> string list \<Rightarrow> bool" where
  "copied f fsys from [] = True"
| "copied f fsys from (n # rest) =
     (case fsys (from @ [n]) of
        None \<Rightarrow> False
      | Some nd \<Rightarrow> f (stat_of nd) (from @ [n]) n \<and> (rest = [] \<or> nd = Dir)
                  \<and> copied f fsys (from @ [n]) rest)"

fun strip_prefix :: "'a list \<Rightarrow> 'a list \<Rightarrow> 'a list option" where
  "strip_prefix [] ys = Some ys"
| "strip_prefix (x # xs) [] = None"
| "strip_prefix (x # xs) (y # ys) = (if x = y then strip_prefix xs ys else None)"

definition copydir_sync ::
  "path \<Rightarrow> path \<Rightarrow> (string \<Rightarrow> path \<Rightarrow> string \<Rightarrow> bool) \<Rightarrow> state \<Rightarrow> js_error + state" where
  "copydir_sync from to f s =
     (if fs s from \<noteq> Some Dir then Inl (ENOTDIR from)
      else if is_file (fs s to) then Inl (EEXIST to)
      else Inr (emit (CopyDir from to)
             (s\<lparr>fs := (\<lambda>q. case strip_prefix to q of
                              None \<Rightarrow> fs s q
                            | Some [] \<Rightarrow> Some Dir
                            | Some (n # rest) \<Rightarrow>
                                if copied f (fs s) from (n # rest) then fs s (from @ n # rest)
                                else fs s q)\<rparr>)))"

text \<open>The filter of lines 163 and 199.\<close>

definition copy_filter :: "string \<Rightarrow> path \<Rightarrow> string \<Rightarrow> bool" where
  "copy_filter stat filepath filename = (\<not> (stat = ''directory'' \<and> filename = ''node_modules''))"

section \<open>The run\<close>

text \<open>Lines 135-144.\<close>

definition clean :: "path \<Rightarrow> state \<Rightarrow> state" where
  "clean dirname s =
     foldl (\<lambda>s1 name. rimraf_sync (path_resolve (TOOLS_PATH dirname) [name]) s1) s
       [''mip-extensions-master.zip'', ''mip-extensions-master'', ''mip-master.zip'', ''mip-master'']"

text \<open>
  What a run depends on: the helper modules, the directory of the script
  (\<^verbatim>\<open>__dirname\<close>), the working directory, the two command line values read from
  \<^verbatim>\<open>argv\<close>, and the order in which the operating system completes downloads and
  extractions: \<open>pick n\<close> is the lane whose pending operation completes at the \<open>n\<close>-th
  completion when both lanes wait for one. When both lanes are rejected within the same
  turn of the event loop, \<open>tie\<close> is the lane whose rejection reaches the aggregate
  promise first.
\<close>

datatype lane = Core | Extensions

record ('d, 'p) env =
  util :: "('d, 'p) util"
  components :: components
  dirname :: path
  cwd :: path
  argv_core :: js_value
  argv_extensions :: js_value
  pick :: "nat \<Rightarrow> lane"
  tie :: lane

text \<open>
  The promise chain pushed on \<^verbatim>\<open>queue\<close> for a group is in one of these states:
  the download is running; the extraction of the downloaded archive is running; the
  processor is queued as a reaction of an already fulfilled promise (after a local copy);
  or the chain is settled.
\<close>

datatype lane_state = Downloading | Unzipping path | Queued | Fulfilled | Rejected reason

record run =
  final :: state
  core_lane :: "lane_state option"
  extensions_lane :: "lane_state option"
  exit_code :: nat

definition core_git :: string where
  "core_git = ''https://github.com/mipengine/mip/archive/master.zip''"

definition extensions_git :: string where
  "extensions_git = ''https://github.com/mipengine/mip-extensions/archive/master.zip''"

text \<open>
  Lines 150-183. The result is \<open>None\<close> when the process has ended (line 154, or the
  \<^verbatim>\<open>TypeError\<close> that \<^verbatim>\<open>path.resolve\<close> throws for a value that is not a string), and
  the state of the pushed promise chain otherwise. The executor of line 158 runs at once,
  so the copy is complete when the chain is pushed; \<^verbatim>\<open>util.downGit\<close> is called at
  once and its promise is pending.
\<close>

definition launchCore :: "('d, 'p) env \<Rightarrow> state \<Rightarrow> lane_state option \<times> state" where
  "launchCore e s =
     (if truthy (argv_core e) then
        (case argv_core e of
           JStr a \<Rightarrow>
             (let localCoreDir = path_resolve (cwd e) [a]
              in if \<not> isDirectory (util e) (fs s) localCoreDir
                 then (None, process_exit 1 (reporter_error (Message (LocalCoreMissing localCoreDir)) s))
                 else
                   (let s1 = reporter_info (LoadLocalCore localCoreDir) s
                    in case copydir_sync localCoreDir
                              (path_resolve (TOOLS_PATH (dirname e)) [''mip-master'']) copy_filter s1 of
                         Inl err \<Rightarrow> (Some (Rejected (Thrown err)), s1)
                       | Inr s2 \<Rightarrow> (Some Queued, s2)))
         | _ \<Rightarrow> (None, emit (Uncaught TypeError) s))
      else (Some Downloading,
            emit (DownGit core_git (path_resolve (TOOLS_PATH (dirname e)) [''mip-master.zip''])) s))"

text \<open>Lines 186-218.\<close>

definition launchExtensions :: "('d, 'p) env \<Rightarrow> state \<Rightarrow> lane_state option \<times> state" where
  "launchExtensions e s =
     (if truthy (argv_extensions e) then
        (case argv_extensions e of
           JStr a \<Rightarrow>
             (let localExtensionsDir = path_resolve (cwd e) [a]
              in if \<not> isDirectory (util e) (fs s) localExtensionsDir
                 then (None, process_exit 1
                         (reporter_error (Message (LocalExtensionsMissing localExtensionsDir)) s))
                 else
                   (let s1 = reporter_info (LoadLocalExtensions localExtensionsDir) s
                    in case copydir_sync localExtensionsDir
                              (path_resolve (TOOLS_PATH (dirname e)) [''mip-extensions-master''])
                              copy_filter s1 of
                         Inl err \<Rightarrow> (Some (Rejected (Thrown err)), s1)
                       | Inr s2 \<Rightarrow> (Some Queued, s2)))
         | _ \<Rightarrow> (None, emit (Uncaught TypeError) s))
      else (Some Downloading,
            emit (DownGit extensions_git
                    (path_resolve (TOOLS_PATH (dirname e)) [''mip-extensions-master.zip''])) s))"

text \<open>The two handlers of lines 225-231.\<close>

definition onFulfilled :: "('d, 'p) env \<Rightarrow> lane_state \<Rightarrow> lane_state \<Rightarrow> state \<Rightarrow> run" where
  "onFulfilled e lc le s =
     \<lparr>final = reporter_info SyncSuccess (clean (dirname e) s),
      core_lane = Some lc, extensions_lane = Some le, exit_code = 0\<rparr>"

definition onRejected :: "('d, 'p) env \<Rightarrow> reason \<Rightarrow> lane_state \<Rightarrow> lane_state \<Rightarrow> state \<Rightarrow> run" where
  "onRejected e err lc le s =
     \<lparr>final = process_exit 1 (clean (dirname e) (reporter_error err s)),
      core_lane = Some lc, extensions_lane = Some le, exit_code = 1\<rparr>"

text \<open>
  The reason \<^verbatim>\<open>Promise.all(queue)\<close> is rejected with: that of the rejected chain, and
  with two rejected chains that of the one whose rejection arrived first.
\<close>

definition first_rejection :: "lane \<Rightarrow> lane_state \<Rightarrow> lane_state \<Rightarrow> reason option" where
  "first_rejection t lc le =
     (case lc of
        Rejected a \<Rightarrow> (case le of Rejected b \<Rightarrow> Some (if t = Core then a else b) | _ \<Rightarrow> Some a)
      | _ \<Rightarrow> (case le of Rejected b \<Rightarrow> Some b | _ \<Rightarrow> None))"

text \<open>The processor of a lane runs as a reaction: its promise settles the chain.\<close>

definition runProcessor :: "('d, 'p) env \<Rightarrow> lane \<Rightarrow> state \<Rightarrow> lane_state \<times> state" where
  "runProcessor e l s =
     (case (case l of Core \<Rightarrow> coreProcessor (util e) (components e) (dirname e) s
                    | Extensions \<Rightarrow> extensionsProcessor (util e) (components e) (dirname e) s) of
        (Inl r, s1) \<Rightarrow> (Rejected r, s1)
      | (Inr _, s1) \<Rightarrow> (Fulfilled, s1))"

text \<open>
  The completion of the pending operation of a remote lane (lines 176-181 and 211-216):
  a completed download starts the extraction, a completed extraction runs the processor,
  a failure rejects the chain.
\<close>

definition ioDone :: "('d, 'p) env \<Rightarrow> lane \<Rightarrow> lane_state \<Rightarrow> state \<Rightarrow> lane_state \<times> state" where
  "ioDone e l st s =
     (case st of
        Downloading \<Rightarrow>
          (case downGit (util e)
                  (case l of Core \<Rightarrow> core_git | Extensions \<Rightarrow> extensions_git)
                  (path_resolve (TOOLS_PATH (dirname e))
                     [case l of Core \<Rightarrow> ''mip-master.zip'' | Extensions \<Rightarrow> ''mip-extensions-master.zip''])
                  (fs s) of
             Inl err \<Rightarrow> (Rejected (Thrown err), s)
           | Inr (fs1, file) \<Rightarrow> (Unzipping file, emit (UnzipFile file) (s\<lparr>fs := fs1\<rparr>)))
      | Unzipping file \<Rightarrow>
          (case unzipFile (util e) file (fs s) of
             Inl err \<Rightarrow> (Rejected (Thrown err), s)
           | Inr fs1 \<Rightarrow> runProcessor e l (s\<lparr>fs := fs1\<rparr>))
      | _ \<Rightarrow> (st, s))"

fun remaining :: "lane_state \<Rightarrow> nat" where
  "remaining Downloading = 3"
| "remaining (Unzipping file) = 2"
| "remaining Queued = 1"
| "remaining Fulfilled = 0"
| "remaining (Rejected r) = 0"

fun pending :: "lane_state \<Rightarrow> bool" where
  "pending Downloading = True"
| "pending (Unzipping file) = True"
| "pending st = False"

text \<open>
  The event loop after the script body has run.
  \<^item> The processor of a lane whose local copy succeeded was queued by the script body
    (lines 171 and 206) as a reaction of a fulfilled promise. Such reactions run first, in
    the order in which they were queued: the reactions of \<^verbatim>\<open>Promise.all(queue)\<close> are
    attached later (line 225), and a download completes in a later turn. Every call in a
    processor is synchronous, so a processor runs to its end without interleaving.
  \<^item> Then the reactions of \<^verbatim>\<open>Promise.all(queue)\<close> run: a rejected chain runs the handler
    of line 227, which ends the process, whatever the state of the other chain; two
    fulfilled chains run the handlers of lines 225-226.
  \<^item> Otherwise the loop waits for the next completion of a download or an extraction,
    handles it with \<open>ioDone\<close>, and goes on. Every pending download or extraction is
    taken to complete, with success or with failure.
\<close>

function event_loop ::
  "('d, 'p) env \<Rightarrow> nat \<Rightarrow> lane_state \<Rightarrow> lane_state \<Rightarrow> state \<Rightarrow> run" where
  "event_loop e n lc le s =
     (if lc = Queued then
        event_loop e n (fst (runProcessor e Core s)) le (snd (runProcessor e Core s))
      else if le = Queued then
        event_loop e n lc (fst (runProcessor e Extensions s)) (snd (runProcessor e Extensions s))
      else if first_rejection (tie e) lc le \<noteq> None then
        onRejected e (the (first_rejection (tie e) lc le)) lc le s
      else if lc = Fulfilled \<and> le = Fulfilled then onFulfilled e lc le s
      else if pending lc \<and> (\<not> pending le \<or> pick e n = Core) then
        event_loop e (Suc n) (fst (ioDone e Core lc s)) le (snd (ioDone e Core lc s))
      else
        event_loop e (Suc n) lc (fst (ioDone e Extensions le s)) (snd (ioDone e Extensions le s)))"
  by pat_completeness auto
termination
proof (relation "measure (\<lambda>(e, n, lc, le, s). remaining lc + remaining le)", goal_cases)
  case 1
  show ?case by simp
next
  case (2 e n lc le s)
  have "remaining (fst (runProcessor e Core s)) = 0"
    by (auto simp: runProcessor_def split: prod.splits sum.splits)
  with 2 show ?case by (simp add: case_prod_beta)
next
  case (3 e n lc le s)
  have "remaining (fst (runProcessor e Extensions s)) = 0"
    by (auto simp: runProcessor_def split: prod.splits sum.splits)
  with 3 show ?case by (simp add: case_prod_beta)
next
  case (4 e n lc le s)
  have "remaining (fst (runProcessor e Core t)) = 0" for t
    by (auto simp: runProcessor_def split: prod.splits sum.splits)
  with 4 have "remaining (fst (ioDone e Core lc s)) < remaining lc"
    by (cases lc) (auto simp: ioDone_def split: sum.splits prod.splits)
  then show ?case by (simp add: case_prod_beta)
next
  case (5 e n lc le s)
  then have "pending le"
    by (cases lc; cases le) (auto simp: first_rejection_def)
  moreover have "remaining (fst (runProcessor e Extensions t)) = 0" for t
    by (auto simp: runProcessor_def split: prod.splits sum.splits)
  ultimately have "remaining (fst (ioDone e Extensions le s)) < remaining le"
    by (cases le) (auto simp: ioDone_def split: sum.splits prod.splits)
  then show ?case by (simp add: case_prod_beta)
qed

declare event_loop.simps [simp del]

text \<open>
  The script body (lines 146-231): both launches, the start line, the removal of
  \<^verbatim>\<open>source/examples\<close>, and then the event loop on the two chains.
\<close>

definition main :: "('d, 'p) env \<Rightarrow> state \<Rightarrow> run" where
  "main e s =
     (case launchCore e s of
        (None, s1) \<Rightarrow>
          \<lparr>final = s1, core_lane = None, extensions_lane = None, exit_code = 1\<rparr>
      | (Some lc, s1) \<Rightarrow>
          (case launchExtensions e s1 of
             (None, s2) \<Rightarrow>
               \<lparr>final = s2, core_lane = Some lc, extensions_lane = None, exit_code = 1\<rparr>
           | (Some le, s2) \<Rightarrow>
               event_loop e 0 lc le
                 (rimraf_sync (path_resolve (BASE_URL (dirname e)) [''./source/examples''])
                    (reporter_info SyncStart s2))))"

section \<open>Observations on a trace\<close>

text \<open>
  The paths written and the lines printed with \<^verbatim>\<open>reporter.info\<close>, in the order of the
  trace; the records of a list whose promise was fulfilled; the events added between two
  states; the events that the processors and the completion of an extraction add; the
  events of the two launches; and the events of one call of \<open>clean\<close>.
\<close>

definition written_paths :: "event list \<Rightarrow> path list" where
  "written_paths evs = concat (map (\<lambda>ev. case ev of WriteFile p out \<Rightarrow> [p] | _ \<Rightarrow> []) evs)"

definition info_lines :: "event list \<Rightarrow> message list" where
  "info_lines evs = concat (map (\<lambda>ev. case ev of Info m \<Rightarrow> [m] | _ \<Rightarrow> []) evs)"

definition resolved :: "ComponentRecord list \<Rightarrow> (reason + unit) list \<Rightarrow> ComponentRecord list" where
  "resolved vals rs = map fst (filter (\<lambda>(val, r). r = Inr ()) (zip vals rs))"

definition new_events :: "state \<Rightarrow> state \<Rightarrow> event list" where
  "new_events s s' = drop (length (trace s)) (trace s')"

fun work_event :: "event \<Rightarrow> bool" where
  "work_event (ReadFile p) = True"
| "work_event (Mkdirp p) = True"
| "work_event (WriteFile p out) = True"
| "work_event (Info (SyncOk out)) = True"
| "work_event (UnzipFile p) = True"
| "work_event ev = False"

definition cleanup_events :: "path \<Rightarrow> event list" where
  "cleanup_events d =
     map (\<lambda>name. Rimraf (path_resolve (TOOLS_PATH d) [name]))
       [''mip-extensions-master.zip'', ''mip-extensions-master'', ''mip-master.zip'', ''mip-master'']"

fun launch_event :: "event \<Rightarrow> bool" where
  "launch_event (Info (LoadLocalCore p)) = True"
| "launch_event (Info (LoadLocalExtensions p)) = True"
| "launch_event (CopyDir p q) = True"
| "launch_event (DownGit git file) = True"
| "launch_event ev = False"

text \<open>
  The states that the executors of a list of records are run on, one after the other,
  followed by the state after the last one.
\<close>

fun executor_states ::
  "(ComponentRecord \<Rightarrow> state \<Rightarrow> 'r \<times> state) \<Rightarrow> ComponentRecord list \<Rightarrow> state \<Rightarrow> state list" where
  "executor_states f [] s = [s]"
| "executor_states f (val # vals) s = s # executor_states f vals (snd (f val s))"

section \<open>A concrete run\<close>

text \<open>
  A small instance on which the theorems below are exercised: the script lives in
  \<^verbatim>\<open>/repo/tools\<close>, the manifest has three core records of which the second has no
  source file, and \<open>ex_acquired\<close> is a state in which the core tree has been acquired.
  \<open>ex_blocked\<close> is the same state with a directory in the place of the output file of
  the first record. In \<open>ex_state\<close> nothing has been acquired yet and a local core tree lies in
  \<^verbatim>\<open>/work/mip\<close>; \<open>ex_env\<close> is the call with \<^verbatim>\<open>--core mip\<close> from \<^verbatim>\<open>/work\<close>.
\<close>

definition ex_util :: "(string list, string) util" where
  "ex_util = \<lparr>isDirectory = (\<lambda>f p. f p = Some Dir),
     fileExists = (\<lambda>f p. is_file (f p)),
     parseMarkdown = (\<lambda>t. Inr \<lparr>title = take 1 t, content = drop 1 t, deps = [''mip-img'']\<rparr>),
     readPreset = (\<lambda>f p. Inr ''preset''),
     toMarkdown = (\<lambda>doc. Inr (doc_title doc @ ''|'' @ setting_name (setting doc) @ ''|''
                     @ (if setting_preview (setting doc) then ''true'' else ''false'')
                     @ ''|'' @ doc_content doc)),
     downGit = (\<lambda>git file f. Inr (f(file \<mapsto> File ''zip''), file)),
     unzipFile = (\<lambda>file f. Inr f)\<rparr>"

definition ex_components :: components where
  "ex_components = \<lparr>getCore =
      [\<lparr>name = ''a'', readme = ''docs/a.md'', output_path = ''core/a.md'', preview = JUndefined\<rparr>,
       \<lparr>name = ''b'', readme = ''docs/b.md'', output_path = ''core/b.md'', preview = JUndefined\<rparr>,
       \<lparr>name = ''c'', readme = ''docs/c.md'', output_path = ''core/c.md'', preview = JBool False\<rparr>],
     getExtensions = []\<rparr>"

definition ex_acquired :: state where
  "ex_acquired = \<lparr>fs = map_of
     [([], Dir), ([''repo''], Dir), ([''repo'', ''tools''], Dir), ([''repo'', ''source''], Dir),
      ([''repo'', ''tools'', ''mip-master''], Dir),
      ([''repo'', ''tools'', ''mip-master'', ''docs''], Dir),
      ([''repo'', ''tools'', ''mip-master'', ''docs'', ''a.md''], File ''Abody''),
      ([''repo'', ''tools'', ''mip-master'', ''docs'', ''c.md''], File ''Cbody'')], trace = []\<rparr>"

definition ex_blocked :: state where
  "ex_blocked = \<lparr>fs = map_of
     [([], Dir), ([''repo''], Dir), ([''repo'', ''tools''], Dir), ([''repo'', ''source''], Dir),
      ([''repo'', ''source'', ''core''], Dir),
      ([''repo'', ''source'', ''core'', ''a.md''], Dir),
      ([''repo'', ''tools'', ''mip-master''], Dir),
      ([''repo'', ''tools'', ''mip-master'', ''docs''], Dir),
      ([''repo'', ''tools'', ''mip-master'', ''docs'', ''a.md''], File ''Abody''),
      ([''repo'', ''tools'', ''mip-master'', ''docs'', ''c.md''], File ''Cbody'')], trace = []\<rparr>"

definition ex_state :: state where
  "ex_state = \<lparr>fs = map_of
     [([], Dir), ([''repo''], Dir), ([''repo'', ''tools''], Dir), ([''repo'', ''source''], Dir),
      ([''work''], Dir), ([''work'', ''mip''], Dir), ([''work'', ''mip'', ''docs''], Dir),
      ([''work'', ''mip'', ''docs'', ''a.md''], File ''Abody''),
      ([''work'', ''mip'', ''docs'', ''c.md''], File ''Cbody''),
      ([''work'', ''mip'', ''node_modules''], Dir),
      ([''work'', ''mip'', ''node_modules'', ''x.js''], File ''x'')], trace = []\<rparr>"

definition ex_env :: "(string list, string) env" where
  "ex_env = \<lparr>util = ex_util, components = ex_components, dirname = [''repo'', ''tools''],
     cwd = [''work''], argv_core = JStr ''mip'', argv_extensions = JUndefined,
     pick = (\<lambda>n. Core), tie = Core\<rparr>"

section \<open>Basic facts\<close>

lemma fs_emit [simp]: "fs (emit ev s) = fs s" by (simp add: emit_def)
lemma trace_emit [simp]: "trace (emit ev s) = trace s @ [ev]" by (simp add: emit_def)

lemma syncRecord_cases:
  "syncRecord u d dir val s = (r, s') \<Longrightarrow>
   (r = Inl (Message (NotExist (path_resolve dir [readme val]))) \<and> s' = s
      \<and> \<not> fileExists u (fs s) (path_resolve dir [readme val]))
   \<or> (\<exists>e evs. r = Inl (Thrown e) \<and> fileExists u (fs s) (path_resolve dir [readme val])
        \<and> trace s' = trace s @ evs \<and> set evs \<subseteq> {ReadFile (path_resolve dir [readme val]),
             Mkdirp (path_dirname (path_resolve (BASE_URL d) [''source'', output_path val]))})
   \<or> (\<exists>text data preset out.
        r = Inr () \<and> fileExists u (fs s) (path_resolve dir [readme val])
        \<and> fs s (path_resolve dir [readme val]) = Some (File text)
        \<and> parseMarkdown u text = Inr data
        \<and> readPreset u (fs s) (path_dirname (path_resolve dir [readme val])) = Inr preset
        \<and> toMarkdown u (recordDocument data val preset) = Inr out
        \<and> fs s' (path_resolve (BASE_URL d) [''source'', output_path val]) = Some (File out)
        \<and> trace s' = trace s @
            [ReadFile (path_resolve dir [readme val]),
             Mkdirp (path_dirname (path_resolve (BASE_URL d) [''source'', output_path val])),
             WriteFile (path_resolve (BASE_URL d) [''source'', output_path val]) out,
             Info (SyncOk (output_path val))])"
  unfolding syncRecord_def Let_def readFileSync_def mkdirp_sync_def writeFileSync_def reporter_info_def
  by (auto split: if_splits sum.splits prod.splits option.splits node.splits)

lemma syncRecord_events:
  assumes "syncRecord u d dir val s = (r, s')"
  shows "\<exists>evs. trace s' = trace s @ evs \<and> list_all work_event evs
           \<and> written_paths evs =
               (if r = Inr () then [path_resolve (BASE_URL d) [''source'', output_path val]] else [])
           \<and> info_lines evs = (if r = Inr () then [SyncOk (output_path val)] else [])"
  using syncRecord_cases [OF assms]
  by (elim disjE exE conjE) (auto simp: written_paths_def info_lines_def list_all_iff)


lemma mapRecords_length: "mapRecords f vals s = (rs, s') \<Longrightarrow> length rs = length vals"
  by (induction vals arbitrary: s rs) (auto split: prod.splits)

lemma written_paths_append [simp]: "written_paths (xs @ ys) = written_paths xs @ written_paths ys"
  by (simp add: written_paths_def)

lemma info_lines_append [simp]: "info_lines (xs @ ys) = info_lines xs @ info_lines ys"
  by (simp add: info_lines_def)

lemma resolved_Cons [simp]:
  "resolved (val # vals) (r # rs) = (if r = Inr () then val # resolved vals rs else resolved vals rs)"
  by (simp add: resolved_def)

lemma resolved_Nil [simp]: "resolved [] rs = []"
  by (simp add: resolved_def)

lemma mapRecords_events:
  "mapRecords (syncRecord u d dir) vals s = (rs, s') \<Longrightarrow>
   \<exists>evs. trace s' = trace s @ evs \<and> list_all work_event evs
     \<and> written_paths evs =
         map (\<lambda>val. path_resolve (BASE_URL d) [''source'', output_path val]) (resolved vals rs)
     \<and> info_lines evs = map (\<lambda>val. SyncOk (output_path val)) (resolved vals rs)"
proof (induction vals arbitrary: s rs)
  case Nil
  then show ?case by (simp add: written_paths_def info_lines_def)
next
  case (Cons val vals)
  obtain r s1 where step: "syncRecord u d dir val s = (r, s1)"
    by (cases "syncRecord u d dir val s")
  obtain rs1 where rest: "mapRecords (syncRecord u d dir) vals s1 = (rs1, s')" and rs: "rs = r # rs1"
    using Cons.prems step by (auto split: prod.splits)
  from syncRecord_events [OF step] obtain evs1 where
    e1: "trace s1 = trace s @ evs1" "list_all work_event evs1"
      "written_paths evs1 =
         (if r = Inr () then [path_resolve (BASE_URL d) [''source'', output_path val]] else [])"
      "info_lines evs1 = (if r = Inr () then [SyncOk (output_path val)] else [])"
    by blast
  from Cons.IH [OF rest] obtain evs2 where
    e2: "trace s' = trace s1 @ evs2" "list_all work_event evs2"
      "written_paths evs2 =
         map (\<lambda>val. path_resolve (BASE_URL d) [''source'', output_path val]) (resolved vals rs1)"
      "info_lines evs2 = map (\<lambda>val. SyncOk (output_path val)) (resolved vals rs1)"
    by blast
  show ?case
    using e1 e2 rs by (intro exI [of _ "evs1 @ evs2"]) simp
qed


lemmas ex_defs = ex_util_def ex_components_def ex_acquired_def ex_blocked_def
lemmas path_defs = path_resolve_def resolve1_def norm_step_def is_absolute_def TOOLS_PATH_def
  BASE_URL_def path_dirname_def
lemmas io_defs = readFileSync_def writeFileSync_def mkdirp_sync_def is_file_def emit_def
  reporter_info_def

section \<open>The settings block\<close>

text \<open>
  Claim C1. Both processors run the executor \<open>syncRecord\<close> for each of their records.
  Whenever the executor fulfils its promise, the file at the record's output path holds
  the serialisation of a document whose settings block has \<open>preview = true\<close> when the
  record's \<^verbatim>\<open>preview\<close> is undefined and \<open>preview = false\<close> when it is \<^verbatim>\<open>false\<close>.
\<close>

theorem preview_setting:
  assumes "syncRecord u d dir val s = (Inr (), s')"
  shows "\<exists>data preset out.
           toMarkdown u (recordDocument data val preset) = Inr out
         \<and> fs s' (path_resolve (BASE_URL d) [''source'', output_path val]) = Some (File out)
         \<and> (preview val = JUndefined \<longrightarrow> setting_preview (setting (recordDocument data val preset)) = True)
         \<and> (preview val = JBool False \<longrightarrow> setting_preview (setting (recordDocument data val preset)) = False)"
proof -
  from syncRecord_cases [OF assms] obtain data preset out where
    w: "toMarkdown u (recordDocument data val preset) = Inr out"
       "fs s' (path_resolve (BASE_URL d) [''source'', output_path val]) = Some (File out)"
    by auto
  have "setting_preview (setting (recordDocument data val preset))
          = (preview val = JUndefined \<or> truthy (preview val))"
    by (simp add: recordDocument_def)
  with w show ?thesis by force
qed

theorem preview_setting_witness:
  "fst (syncRecord ex_util [''repo'', ''tools''] [''repo'', ''tools'', ''mip-master'']
          (getCore ex_components ! 2) ex_acquired) = Inr ()
   \<and> (\<exists>data preset out.
           toMarkdown ex_util (recordDocument data (getCore ex_components ! 2) preset) = Inr out
         \<and> fs (snd (syncRecord ex_util [''repo'', ''tools''] [''repo'', ''tools'', ''mip-master'']
                  (getCore ex_components ! 2) ex_acquired))
              [''repo'', ''source'', ''core'', ''c.md''] = Some (File out)
         \<and> setting_preview (setting (recordDocument data (getCore ex_components ! 2) preset)) = False)"
proof -
  let ?run = "syncRecord ex_util [''repo'', ''tools''] [''repo'', ''tools'', ''mip-master'']
          (getCore ex_components ! 2) ex_acquired"
  have r: "fst ?run = Inr ()"
    by (simp add: syncRecord_def recordDocument_def Let_def ex_defs path_defs io_defs)
  then have h: "?run = (Inr (), snd ?run)"
    by (simp add: prod_eq_iff)
  have p: "path_resolve (BASE_URL [''repo'', ''tools'']) [''source'', output_path (getCore ex_components ! 2)]
      = [''repo'', ''source'', ''core'', ''c.md'']"
    by (simp add: ex_defs path_defs)
  have v: "preview (getCore ex_components ! 2) = JBool False"
    by (simp add: ex_defs)
  show ?thesis
    using r preview_setting [OF h] unfolding p v by auto
qed

section \<open>One document\<close>

text \<open>
  Claim C2. When the source file of a record holds \<open>text\<close>, the parser turns \<open>text\<close>
  into title \<open>T\<close>, content \<open>B\<close> and dependencies \<open>D\<close>, and the executor fulfils its
  promise, then the one file the executor has written is the record's output file, and it
  holds the serialisation of the document with exactly title \<open>T\<close>, content \<open>B\<close>, and the
  settings block made of \<open>D\<close>, the record's name, the preset read beside the source file,
  and the preview flag.
\<close>

theorem document_roundtrip:
  assumes "fs s (path_resolve dir [readme val]) = Some (File text)"
      and "parseMarkdown u text = Inr \<lparr>title = T, content = B, deps = D\<rparr>"
      and "syncRecord u d dir val s = (Inr (), s')"
  shows "\<exists>preset out.
           readPreset u (fs s) (path_dirname (path_resolve dir [readme val])) = Inr preset
         \<and> toMarkdown u
              (Document T B
                 (Setting D (name val) preset
                    (if preview val = JUndefined then True else truthy (preview val)))) = Inr out
         \<and> fs s' (path_resolve (BASE_URL d) [''source'', output_path val]) = Some (File out)
         \<and> written_paths (new_events s s') = [path_resolve (BASE_URL d) [''source'', output_path val]]
         \<and> WriteFile (path_resolve (BASE_URL d) [''source'', output_path val]) out
              \<in> set (new_events s s')"
proof -
  from syncRecord_cases [OF assms(3)] obtain text' data preset out where
    w: "fs s (path_resolve dir [readme val]) = Some (File text')"
       "parseMarkdown u text' = Inr data"
       "readPreset u (fs s) (path_dirname (path_resolve dir [readme val])) = Inr preset"
       "toMarkdown u (recordDocument data val preset) = Inr out"
       "fs s' (path_resolve (BASE_URL d) [''source'', output_path val]) = Some (File out)"
       "trace s' = trace s @
            [ReadFile (path_resolve dir [readme val]),
             Mkdirp (path_dirname (path_resolve (BASE_URL d) [''source'', output_path val])),
             WriteFile (path_resolve (BASE_URL d) [''source'', output_path val]) out,
             Info (SyncOk (output_path val))]"
    by auto
  from w(1,2) assms(1,2) have data: "data = \<lparr>title = T, content = B, deps = D\<rparr>"
    by simp
  have "recordDocument data val preset =
          Document T B (Setting D (name val) preset
             (if preview val = JUndefined then True else truthy (preview val)))"
    by (simp add: recordDocument_def data)
  with w(3,4,5,6) show ?thesis
    by (intro exI [of _ preset] exI [of _ out]) (simp add: new_events_def written_paths_def)
qed

theorem document_roundtrip_witness:
  "fs ex_acquired (path_resolve [''repo'', ''tools'', ''mip-master''] [readme (getCore ex_components ! 0)])
     = Some (File ''Abody'')
   \<and> parseMarkdown ex_util ''Abody'' = Inr \<lparr>title = ''A'', content = ''body'', deps = [''mip-img'']\<rparr>
   \<and> fst (syncRecord ex_util [''repo'', ''tools''] [''repo'', ''tools'', ''mip-master'']
          (getCore ex_components ! 0) ex_acquired) = Inr ()
   \<and> fs (snd (syncRecord ex_util [''repo'', ''tools''] [''repo'', ''tools'', ''mip-master'']
          (getCore ex_components ! 0) ex_acquired)) [''repo'', ''source'', ''core'', ''a.md'']
        = Some (File ''A|a|true|body'')"
proof -
  let ?val = "getCore ex_components ! 0"
  let ?run = "syncRecord ex_util [''repo'', ''tools''] [''repo'', ''tools'', ''mip-master'']
          ?val ex_acquired"
  have a: "fs ex_acquired (path_resolve [''repo'', ''tools'', ''mip-master''] [readme ?val])
     = Some (File ''Abody'')"
    by (simp add: ex_defs path_defs)
  have b: "parseMarkdown ex_util ''Abody'' = Inr \<lparr>title = ''A'', content = ''body'', deps = [''mip-img'']\<rparr>"
    by (simp add: ex_defs)
  have r: "fst ?run = Inr ()"
    by (simp add: syncRecord_def recordDocument_def Let_def ex_defs path_defs io_defs)
  then have h: "?run = (Inr (), snd ?run)"
    by (simp add: prod_eq_iff)
  have p: "path_resolve (BASE_URL [''repo'', ''tools'']) [''source'', output_path ?val]
      = [''repo'', ''source'', ''core'', ''a.md'']"
    by (simp add: ex_defs path_defs)
  have t: "toMarkdown ex_util (Document ''A'' ''body'' (Setting [''mip-img''] (name ?val) preset
              (if preview ?val = JUndefined then True else truthy (preview ?val))))
           = Inr ''A|a|true|body''" for preset
    by (simp add: ex_defs)
  from document_roundtrip [OF a b h] show ?thesis
    unfolding p t using a b r by auto
qed

section \<open>A missing acquisition directory\<close>

text \<open>
  Claim C7. When the directory \<^verbatim>\<open>tools/mip-master\<close> is not a directory as the core
  processor starts, the processor's promise is rejected with the text naming that
  directory and the state is unchanged: no record is read, nothing is written and nothing
  is printed. The same holds for the extensions processor and
  \<^verbatim>\<open>tools/mip-extensions-master\<close>.
\<close>

theorem missing_directory_rejects:
  "(\<not> isDirectory u (fs s) (path_resolve (TOOLS_PATH d) [''mip-master'']) \<longrightarrow>
      coreProcessor u c d s
        = (Inl (Message (NotExist (path_resolve (TOOLS_PATH d) [''mip-master'']))), s))
   \<and> (\<not> isDirectory u (fs s) (path_resolve (TOOLS_PATH d) [''mip-extensions-master'']) \<longrightarrow>
      extensionsProcessor u c d s
        = (Inl (Message (NotExist (path_resolve (TOOLS_PATH d) [''mip-extensions-master'']))), s))"
  by (simp add: coreProcessor_def extensionsProcessor_def)

theorem missing_directory_rejects_witness:
  "\<not> isDirectory ex_util (fs ex_acquired) [''repo'', ''tools'', ''mip-extensions-master'']
   \<and> extensionsProcessor ex_util ex_components [''repo'', ''tools''] ex_acquired
        = (Inl (Message (NotExist [''repo'', ''tools'', ''mip-extensions-master''])), ex_acquired)"
proof -
  have p: "path_resolve (TOOLS_PATH [''repo'', ''tools'']) [''mip-extensions-master'']
             = [''repo'', ''tools'', ''mip-extensions-master'']"
    by (simp add: path_defs)
  have n: "\<not> isDirectory ex_util (fs ex_acquired) [''repo'', ''tools'', ''mip-extensions-master'']"
    by (simp add: ex_defs)
  from missing_directory_rejects [of ex_util ex_acquired "[''repo'', ''tools'']" ex_components] n
  show ?thesis unfolding p by simp
qed

section \<open>The records of a group\<close>

lemma processor_of_group:
  assumes "(P = coreProcessor u c d \<and> dir = path_resolve (TOOLS_PATH d) [''mip-master'']
              \<and> vals = getCore c)
         \<or> (P = extensionsProcessor u c d
              \<and> dir = path_resolve (TOOLS_PATH d) [''mip-extensions-master'']
              \<and> vals = getExtensions c)"
      and "isDirectory u (fs s) dir"
  shows "P s = (promise_all (fst (mapRecords (syncRecord u d dir) vals s)),
                snd (mapRecords (syncRecord u d dir) vals s))"
  using assms
  by (auto simp: coreProcessor_def extensionsProcessor_def split: prod.splits)

lemma new_events_eq: "trace s' = trace s @ evs \<Longrightarrow> new_events s s' = evs"
  by (simp add: new_events_def)

lemma executor_states_length [simp]: "length (executor_states f vals s) = Suc (length vals)"
  by (induction vals arbitrary: s) auto

lemma executor_states_first [simp]: "executor_states f vals s ! 0 = s"
  by (cases vals) auto

lemma executor_states_last:
  "executor_states f vals s ! length vals = snd (mapRecords f vals s)"
  by (induction vals arbitrary: s) (simp_all add: case_prod_beta)

lemma mapRecords_fst_length [simp]: "length (fst (mapRecords f vals s)) = length vals"
  by (cases "mapRecords f vals s") (simp add: mapRecords_length)

lemma executor_states_step:
  "j < length vals \<Longrightarrow>
   f (vals ! j) (executor_states f vals s ! j)
     = (fst (mapRecords f vals s) ! j, executor_states f vals s ! Suc j)"
proof (induction vals arbitrary: s j)
  case Nil
  then show ?case by simp
next
  case (Cons val vals)
  show ?case
  proof (cases j)
    case 0
    then show ?thesis
      by (simp add: case_prod_beta)
  next
    case (Suc i)
    then have "i < length vals" using Cons.prems by simp
    from Cons.IH [OF this, of "snd (f val s)"] show ?thesis
      using Suc by (simp add: case_prod_beta)
  qed
qed

lemma syncRecord_fulfilled:
  assumes "syncRecord u d dir val t = (Inr (), t')"
  shows "\<exists>out. new_events t t' =
           [ReadFile (path_resolve dir [readme val]),
            Mkdirp (path_dirname (path_resolve (BASE_URL d) [''source'', output_path val])),
            WriteFile (path_resolve (BASE_URL d) [''source'', output_path val]) out,
            Info (SyncOk (output_path val))]"
  using syncRecord_cases [OF assms] by (auto simp: new_events_def)

lemma syncRecord_rejected:
  assumes "syncRecord u d dir val t = (r, t')" and "r \<noteq> Inr ()"
  shows "new_events t t' \<in>
           {[], [ReadFile (path_resolve dir [readme val])],
            [ReadFile (path_resolve dir [readme val]),
             Mkdirp (path_dirname (path_resolve (BASE_URL d) [''source'', output_path val]))]}"
  using assms
  unfolding syncRecord_def Let_def readFileSync_def mkdirp_sync_def writeFileSync_def
    reporter_info_def new_events_def
  by (auto split: if_splits sum.splits prod.splits option.splits node.splits)

lemma syncRecord_extends:
  assumes "syncRecord u d dir val t = (r, t')"
  shows "trace t' = trace t @ new_events t t'"
  using syncRecord_events [OF assms] by (auto simp: new_events_def)

lemma syncRecord_ok:
  assumes "fileExists u (fs t) (path_resolve dir [readme val])"
      and "readFileSync (path_resolve dir [readme val]) t = Inr (text, t1)"
      and "parseMarkdown u text = Inr data"
      and "readPreset u (fs t1) (path_dirname (path_resolve dir [readme val])) = Inr preset"
      and "mkdirp_sync (path_dirname (path_resolve (BASE_URL d) [''source'', output_path val])) t1 = Inr t2"
      and "toMarkdown u (recordDocument data val preset) = Inr out"
      and "writeFileSync (path_resolve (BASE_URL d) [''source'', output_path val]) out t2 = Inr t3"
  shows "syncRecord u d dir val t = (Inr (), reporter_info (SyncOk (output_path val)) t3)"
  using assms by (simp add: syncRecord_def Let_def)

lemma promise_all_first:
  "k < length rs \<Longrightarrow> rs ! k \<noteq> Inr () \<Longrightarrow>
   \<exists>i\<le>k. promise_all rs = rs ! i \<and> rs ! i \<noteq> Inr () \<and> (\<forall>i'<i. rs ! i' = Inr ())"
proof (induction rs arbitrary: k rule: promise_all.induct)
  case 1
  then show ?case by simp
next
  case (2 e rs)
  then show ?case by (intro exI [of _ 0]) simp
next
  case (3 u rs)
  then obtain k' where k: "k = Suc k'" by (cases k) auto
  with "3.prems" have "k' < length rs" "rs ! k' \<noteq> Inr ()" by simp_all
  from "3.IH" [OF this] obtain i where
    i: "i \<le> k'" "promise_all rs = rs ! i" "rs ! i \<noteq> Inr ()" "\<forall>i'<i. rs ! i' = Inr ()" by blast
  show ?case
  proof (intro exI [of _ "Suc i"] conjI allI impI)
    show "Suc i \<le> k" using i(1) k by simp
    show "promise_all (Inr u # rs) = (Inr u # rs) ! Suc i" using i(2) by simp
    show "(Inr u # rs) ! Suc i \<noteq> Inr ()" using i(3) by simp
    fix i' assume "i' < Suc i"
    then show "(Inr u # rs) ! i' = Inr ()" using i(4) by (cases i') auto
  qed
qed

lemma promise_all_fulfilled:
  "promise_all rs = Inr () \<longleftrightarrow> (\<forall>j<length rs. rs ! j = Inr ())"
proof (induction rs rule: promise_all.induct)
  case (3 u rs)
  show ?case
    using 3 by (auto simp: nth_Cons split: nat.splits)
qed auto

lemma resolved_all:
  "length rs = length vals \<Longrightarrow> \<forall>j<length rs. rs ! j = Inr () \<Longrightarrow> resolved vals rs = vals"
proof (induction vals arbitrary: rs)
  case Nil
  then show ?case by simp
next
  case (Cons val vals)
  then obtain r rs' where rs: "rs = r # rs'" by (cases rs) auto
  with Cons.prems have "r = Inr ()" "length rs' = length vals" "\<forall>j<length rs'. rs' ! j = Inr ()"
    by auto
  with Cons.IH rs show ?case by simp
qed

lemma executor_states_trace:
  assumes "j \<le> length vals"
  shows "trace (executor_states (syncRecord u d dir) vals s ! j)
           = trace s @ concat (map (\<lambda>i. new_events (executor_states (syncRecord u d dir) vals s ! i)
                                          (executor_states (syncRecord u d dir) vals s ! Suc i)) [0..<j])"
  using assms
proof (induction j)
  case 0
  then show ?case by simp
next
  case (Suc j)
  then have j: "j < length vals" by simp
  from executor_states_step [OF j, of "syncRecord u d dir" s]
  have "trace (executor_states (syncRecord u d dir) vals s ! Suc j)
          = trace (executor_states (syncRecord u d dir) vals s ! j)
            @ new_events (executor_states (syncRecord u d dir) vals s ! j)
                (executor_states (syncRecord u d dir) vals s ! Suc j)"
    by (rule syncRecord_extends)
  with Suc show ?case by simp
qed

lemma processor_run:
  assumes grp: "(P = coreProcessor u c d \<and> dir = path_resolve (TOOLS_PATH d) [''mip-master'']
              \<and> vals = getCore c)
         \<or> (P = extensionsProcessor u c d
              \<and> dir = path_resolve (TOOLS_PATH d) [''mip-extensions-master'']
              \<and> vals = getExtensions c)"
      and dir: "isDirectory u (fs s) dir"
      and rs: "rs = fst (mapRecords (syncRecord u d dir) vals s)"
      and ts: "ts = executor_states (syncRecord u d dir) vals s"
  shows "length rs = length vals" and "length ts = Suc (length vals)" and "ts ! 0 = s"
    and "P s = (promise_all rs, ts ! length vals)"
    and "\<And>j. j < length vals \<Longrightarrow> syncRecord u d dir (vals ! j) (ts ! j) = (rs ! j, ts ! Suc j)"
    and "\<And>j. j \<le> length vals \<Longrightarrow>
           trace (ts ! j) = trace s @ concat (map (\<lambda>i. new_events (ts ! i) (ts ! Suc i)) [0..<j])"
  using processor_of_group [OF grp dir] executor_states_step [of _ vals "syncRecord u d dir" s]
    executor_states_trace [of _ vals u d dir s]
  unfolding rs ts by (simp_all add: executor_states_last)

lemma trace_prefix_final:
  assumes tr: "\<And>j. j \<le> n \<Longrightarrow> trace (ts ! j) = trace s @ concat (map (\<lambda>i. ev i) [0..<j])"
      and j: "j \<le> n"
  shows "prefix (trace (ts ! j)) (trace (ts ! n))"
proof -
  have "[0..<n] = [0..<j] @ [j..<n]"
    using j by (metis le_add_diff_inverse upt_add_eq_append zero_le)
  then have "trace (ts ! n) = trace (ts ! j) @ concat (map (\<lambda>i. ev i) [j..<n])"
    using tr [OF j] tr [of n] by simp
  then show ?thesis by (simp add: prefix_def)
qed

lemmas proc_defs = coreProcessor_def syncRecord_def recordDocument_def Let_def

lemma ex_processor:
  "fst (coreProcessor ex_util ex_components [''repo'', ''tools''] ex_acquired)
     = Inl (Message (NotExist [''repo'', ''tools'', ''mip-master'', ''docs'', ''b.md'']))"
  "trace (snd (coreProcessor ex_util ex_components [''repo'', ''tools''] ex_acquired)) =
     [ReadFile [''repo'', ''tools'', ''mip-master'', ''docs'', ''a.md''],
      Mkdirp [''repo'', ''source'', ''core''],
      WriteFile [''repo'', ''source'', ''core'', ''a.md''] ''A|a|true|body'',
      Info (SyncOk ''core/a.md''),
      ReadFile [''repo'', ''tools'', ''mip-master'', ''docs'', ''c.md''],
      Mkdirp [''repo'', ''source'', ''core''],
      WriteFile [''repo'', ''source'', ''core'', ''c.md''] ''C|c|false|body'',
      Info (SyncOk ''core/c.md'')]"
  by (simp_all add: proc_defs ex_defs path_defs io_defs)

lemma ex_processor_blocked:
  "fst (coreProcessor ex_util ex_components [''repo'', ''tools''] ex_blocked)
     = Inl (Thrown (EISDIR [''repo'', ''source'', ''core'', ''a.md'']))"
  "trace (snd (coreProcessor ex_util ex_components [''repo'', ''tools''] ex_blocked)) =
     [ReadFile [''repo'', ''tools'', ''mip-master'', ''docs'', ''a.md''],
      Mkdirp [''repo'', ''source'', ''core''],
      ReadFile [''repo'', ''tools'', ''mip-master'', ''docs'', ''c.md''],
      Mkdirp [''repo'', ''source'', ''core''],
      WriteFile [''repo'', ''source'', ''core'', ''c.md''] ''C|c|false|body'',
      Info (SyncOk ''core/c.md'')]"
  "fs (snd (coreProcessor ex_util ex_components [''repo'', ''tools''] ex_blocked))
     [''repo'', ''source'', ''core'', ''a.md''] = Some Dir"
  by (simp_all add: proc_defs ex_defs path_defs io_defs)

lemma ex_group:
  "(coreProcessor ex_util ex_components [''repo'', ''tools'']
      = coreProcessor ex_util ex_components [''repo'', ''tools'']
    \<and> [''repo'', ''tools'', ''mip-master'']
        = path_resolve (TOOLS_PATH [''repo'', ''tools'']) [''mip-master'']
    \<and> getCore ex_components = getCore ex_components)
   \<or> (coreProcessor ex_util ex_components [''repo'', ''tools'']
        = extensionsProcessor ex_util ex_components [''repo'', ''tools'']
      \<and> [''repo'', ''tools'', ''mip-master'']
          = path_resolve (TOOLS_PATH [''repo'', ''tools'']) [''mip-extensions-master'']
      \<and> getCore ex_components = getExtensions ex_components)"
  by (simp add: path_defs)

text \<open>
  Claim C9. The processor of a group runs the executor of every record of the manifest
  list, in the order of the list, each on the state the previous one left: there are
  states \<open>ts\<close>, one before each record and one after the last, and results \<open>rs\<close>, one
  for each record, such that the executor of record \<open>j\<close> takes \<open>ts ! j\<close> to \<open>ts ! Suc j\<close>
  with result \<open>rs ! j\<close>. The trace before record \<open>j\<close> is the old trace followed by the
  events of the records \<open>0, ..., j - 1\<close> in this order, so the read, the write and the
  success line of record \<open>i\<close> come before everything record \<open>j\<close> does, for \<open>i < j\<close>.
  A fulfilled executor adds its read, its directory creation, its write and its success
  line, in this order; a rejected one adds at most its read and its directory creation.
  So the files written and the success lines printed are those of the fulfilled records in
  the order of the manifest, and those of all records when none is rejected.
\<close>

theorem sequential_processing:
  assumes grp: "(P = coreProcessor u c d \<and> dir = path_resolve (TOOLS_PATH d) [''mip-master'']
              \<and> vals = getCore c)
         \<or> (P = extensionsProcessor u c d
              \<and> dir = path_resolve (TOOLS_PATH d) [''mip-extensions-master'']
              \<and> vals = getExtensions c)"
      and dir: "isDirectory u (fs s) dir"
  shows "\<exists>rs ts.
           length rs = length vals \<and> length ts = Suc (length vals) \<and> ts ! 0 = s
         \<and> P s = (promise_all rs, ts ! length vals)
         \<and> (\<forall>j<length vals. syncRecord u d dir (vals ! j) (ts ! j) = (rs ! j, ts ! Suc j))
         \<and> (\<forall>j\<le>length vals.
               trace (ts ! j)
                 = trace s @ concat (map (\<lambda>i. new_events (ts ! i) (ts ! Suc i)) [0..<j]))
         \<and> (\<forall>j<length vals.
               (rs ! j = Inr () \<longrightarrow>
                  (\<exists>out. new_events (ts ! j) (ts ! Suc j) =
                     [ReadFile (path_resolve dir [readme (vals ! j)]),
                      Mkdirp (path_dirname (path_resolve (BASE_URL d) [''source'', output_path (vals ! j)])),
                      WriteFile (path_resolve (BASE_URL d) [''source'', output_path (vals ! j)]) out,
                      Info (SyncOk (output_path (vals ! j)))]))
             \<and> (rs ! j \<noteq> Inr () \<longrightarrow>
                  new_events (ts ! j) (ts ! Suc j) \<in>
                    {[], [ReadFile (path_resolve dir [readme (vals ! j)])],
                     [ReadFile (path_resolve dir [readme (vals ! j)]),
                      Mkdirp (path_dirname
                                (path_resolve (BASE_URL d) [''source'', output_path (vals ! j)]))]}))
         \<and> written_paths (new_events s (ts ! length vals))
             = map (\<lambda>val. path_resolve (BASE_URL d) [''source'', output_path val]) (resolved vals rs)
         \<and> info_lines (new_events s (ts ! length vals))
             = map (\<lambda>val. SyncOk (output_path val)) (resolved vals rs)
         \<and> (promise_all rs = Inr () \<longrightarrow> resolved vals rs = vals)"
proof -
  let ?rs = "fst (mapRecords (syncRecord u d dir) vals s)"
  let ?ts = "executor_states (syncRecord u d dir) vals s"
  note run = processor_run [OF grp dir refl refl]
  have m: "mapRecords (syncRecord u d dir) vals s = (?rs, ?ts ! length vals)"
    by (simp add: executor_states_last)
  from mapRecords_events [OF m] obtain evs where
    e: "trace (?ts ! length vals) = trace s @ evs"
       "written_paths evs
          = map (\<lambda>val. path_resolve (BASE_URL d) [''source'', output_path val]) (resolved vals ?rs)"
       "info_lines evs = map (\<lambda>val. SyncOk (output_path val)) (resolved vals ?rs)"
    by blast
  have ne: "new_events s (?ts ! length vals) = evs"
    using e(1) by (rule new_events_eq)
  have shapes: "(?rs ! j = Inr () \<longrightarrow>
                  (\<exists>out. new_events (?ts ! j) (?ts ! Suc j) =
                     [ReadFile (path_resolve dir [readme (vals ! j)]),
                      Mkdirp (path_dirname (path_resolve (BASE_URL d) [''source'', output_path (vals ! j)])),
                      WriteFile (path_resolve (BASE_URL d) [''source'', output_path (vals ! j)]) out,
                      Info (SyncOk (output_path (vals ! j)))]))
             \<and> (?rs ! j \<noteq> Inr () \<longrightarrow>
                  new_events (?ts ! j) (?ts ! Suc j) \<in>
                    {[], [ReadFile (path_resolve dir [readme (vals ! j)])],
                     [ReadFile (path_resolve dir [readme (vals ! j)]),
                      Mkdirp (path_dirname
                                (path_resolve (BASE_URL d) [''source'', output_path (vals ! j)]))]})"
    if j: "j < length vals" for j
  proof (intro conjI impI)
    assume "?rs ! j = Inr ()"
    with run(5) [OF j] have "syncRecord u d dir (vals ! j) (?ts ! j) = (Inr (), ?ts ! Suc j)"
      by simp
    then show "\<exists>out. new_events (?ts ! j) (?ts ! Suc j) =
                     [ReadFile (path_resolve dir [readme (vals ! j)]),
                      Mkdirp (path_dirname (path_resolve (BASE_URL d) [''source'', output_path (vals ! j)])),
                      WriteFile (path_resolve (BASE_URL d) [''source'', output_path (vals ! j)]) out,
                      Info (SyncOk (output_path (vals ! j)))]"
      by (rule syncRecord_fulfilled)
  next
    assume "?rs ! j \<noteq> Inr ()"
    with run(5) [OF j] show "new_events (?ts ! j) (?ts ! Suc j) \<in>
                    {[], [ReadFile (path_resolve dir [readme (vals ! j)])],
                     [ReadFile (path_resolve dir [readme (vals ! j)]),
                      Mkdirp (path_dirname
                                (path_resolve (BASE_URL d) [''source'', output_path (vals ! j)]))]}"
      by (rule syncRecord_rejected)
  qed
  have full: "promise_all ?rs = Inr () \<longrightarrow> resolved vals ?rs = vals"
    using resolved_all [of ?rs vals] by (simp add: promise_all_fulfilled)
  show ?thesis
    apply (rule exI [of _ ?rs], rule exI [of _ ?ts])
    apply (intro conjI allI impI)
             apply (rule run(1))
            apply (rule run(2))
           apply (rule run(3))
          apply (rule run(4))
         apply (erule run(5))
        apply (erule run(6))
       apply (drule shapes, simp)
      apply (drule shapes, simp)
     apply (simp add: ne e(2))
    apply (simp add: ne e(3))
    apply (simp add: full)
    done
qed

theorem sequential_processing_witness:
  "isDirectory ex_util (fs ex_acquired) [''repo'', ''tools'', ''mip-master'']
   \<and> (\<exists>rs ts.
         length rs = 3 \<and> length ts = 4 \<and> ts ! 0 = ex_acquired
       \<and> coreProcessor ex_util ex_components [''repo'', ''tools''] ex_acquired
           = (promise_all rs, ts ! 3)
       \<and> (\<forall>j<3. syncRecord ex_util [''repo'', ''tools''] [''repo'', ''tools'', ''mip-master'']
                     (getCore ex_components ! j) (ts ! j) = (rs ! j, ts ! Suc j))
       \<and> trace (ts ! 3)
           = trace ex_acquired @ new_events (ts ! 0) (ts ! 1) @ new_events (ts ! 1) (ts ! 2)
               @ new_events (ts ! 2) (ts ! 3)
       \<and> trace (ts ! 3) =
           [ReadFile [''repo'', ''tools'', ''mip-master'', ''docs'', ''a.md''],
            Mkdirp [''repo'', ''source'', ''core''],
            WriteFile [''repo'', ''source'', ''core'', ''a.md''] ''A|a|true|body'',
            Info (SyncOk ''core/a.md''),
            ReadFile [''repo'', ''tools'', ''mip-master'', ''docs'', ''c.md''],
            Mkdirp [''repo'', ''source'', ''core''],
            WriteFile [''repo'', ''source'', ''core'', ''c.md''] ''C|c|false|body'',
            Info (SyncOk ''core/c.md'')])"
proof -
  have dir: "isDirectory ex_util (fs ex_acquired) [''repo'', ''tools'', ''mip-master'']"
    by (simp add: ex_defs)
  have len: "length (getCore ex_components) = 3"
    by (simp add: ex_defs)
  from sequential_processing [OF ex_group dir] obtain rs ts where
    r: "length rs = length (getCore ex_components)"
       "length ts = Suc (length (getCore ex_components))"
       "ts ! 0 = ex_acquired"
       "coreProcessor ex_util ex_components [''repo'', ''tools''] ex_acquired
           = (promise_all rs, ts ! length (getCore ex_components))"
       "\<forall>j<length (getCore ex_components).
           syncRecord ex_util [''repo'', ''tools''] [''repo'', ''tools'', ''mip-master'']
             (getCore ex_components ! j) (ts ! j) = (rs ! j, ts ! Suc j)"
       "\<forall>j\<le>length (getCore ex_components).
           trace (ts ! j)
             = trace ex_acquired @ concat (map (\<lambda>i. new_events (ts ! i) (ts ! Suc i)) [0..<j])"
    by blast
  have t3: "ts ! 3 = snd (coreProcessor ex_util ex_components [''repo'', ''tools''] ex_acquired)"
    using r(4) len by simp
  have tr: "trace (ts ! 3)
           = trace ex_acquired @ new_events (ts ! 0) (ts ! 1) @ new_events (ts ! 1) (ts ! 2)
               @ new_events (ts ! 2) (ts ! 3)"
    using r(6) [rule_format, of 3] len by (simp add: upt_rec numeral_2_eq_2 numeral_3_eq_3)
  show ?thesis
    using dir r(1,2,3,4,5) tr ex_processor(2) unfolding len t3 [symmetric]
    by - (rule conjI, assumption, rule exI [of _ rs], rule exI [of _ ts], simp)
qed

text \<open>
  Claim C10 says that, with a record \<open>k\<close> whose source file is missing, every other record
  whose source file exists has its output file written, and that the aggregate promise is
  rejected with the text for the first missing file. In \<open>ex_blocked\<close> the source file of
  the first record exists and that of the second is missing, but the output path of the
  first record is a directory: \<^verbatim>\<open>fs.writeFileSync\<close> throws in its executor, its output
  file is not written, and the aggregate promise is rejected with that exception.
\<close>

theorem missing_record_message_counterexample:
  "fileExists ex_util (fs ex_blocked) [''repo'', ''tools'', ''mip-master'', ''docs'', ''a.md'']
   \<and> \<not> fileExists ex_util (fs ex_blocked) [''repo'', ''tools'', ''mip-master'', ''docs'', ''b.md'']
   \<and> fst (coreProcessor ex_util ex_components [''repo'', ''tools''] ex_blocked)
       = Inl (Thrown (EISDIR [''repo'', ''source'', ''core'', ''a.md'']))
   \<and> written_paths (trace (snd (coreProcessor ex_util ex_components [''repo'', ''tools''] ex_blocked)))
       = [[''repo'', ''source'', ''core'', ''c.md'']]
   \<and> fs (snd (coreProcessor ex_util ex_components [''repo'', ''tools''] ex_blocked))
        [''repo'', ''source'', ''core'', ''a.md''] = Some Dir"
  by (simp add: ex_processor_blocked written_paths_def) (simp add: ex_defs is_file_def)

text \<open>
  Claim C10, amended. The processor of a group runs the executor of every record of the
  manifest list, in the order of the list, each on the state the previous one left, and
  the events of every executor stay in the final trace. The executor of a record whose
  source file is missing when it runs rejects with the text naming the file and changes
  nothing, so the records after it are processed as if it were not there. Every record
  whose source file exists when its executor runs, and for which none of the calls of the
  executor throws (the read, the parser, the preset reader, the directory creation, the
  serialiser, the write), is fulfilled: its output file is written and its success line
  is printed. The aggregate promise is rejected with the reason of the first rejected
  record of the list; this is the text for the missing file of \<open>k\<close> when every record
  before \<open>k\<close> is fulfilled.
\<close>

theorem missing_record_keeps_others:
  assumes grp: "(P = coreProcessor u c d \<and> dir = path_resolve (TOOLS_PATH d) [''mip-master'']
              \<and> vals = getCore c)
         \<or> (P = extensionsProcessor u c d
              \<and> dir = path_resolve (TOOLS_PATH d) [''mip-extensions-master'']
              \<and> vals = getExtensions c)"
      and dir: "isDirectory u (fs s) dir"
  shows "\<exists>rs ts.
           length rs = length vals \<and> length ts = Suc (length vals) \<and> ts ! 0 = s
         \<and> P s = (promise_all rs, ts ! length vals)
         \<and> (\<forall>j<length vals.
               syncRecord u d dir (vals ! j) (ts ! j) = (rs ! j, ts ! Suc j)
             \<and> prefix (trace (ts ! Suc j)) (trace (ts ! length vals)))
         \<and> (\<forall>k<length vals.
               \<not> fileExists u (fs (ts ! k)) (path_resolve dir [readme (vals ! k)]) \<longrightarrow>
                 rs ! k = Inl (Message (NotExist (path_resolve dir [readme (vals ! k)])))
               \<and> ts ! Suc k = ts ! k
               \<and> (\<exists>i\<le>k. fst (P s) = rs ! i \<and> rs ! i \<noteq> Inr () \<and> (\<forall>i'<i. rs ! i' = Inr ()))
               \<and> ((\<forall>i<k. rs ! i = Inr ()) \<longrightarrow>
                     fst (P s) = Inl (Message (NotExist (path_resolve dir [readme (vals ! k)])))))
         \<and> (\<forall>j<length vals. \<forall>src t1 data preset t2 out t3.
               fileExists u (fs (ts ! j)) (path_resolve dir [readme (vals ! j)])
             \<and> readFileSync (path_resolve dir [readme (vals ! j)]) (ts ! j) = Inr (src, t1)
             \<and> parseMarkdown u src = Inr data
             \<and> readPreset u (fs t1) (path_dirname (path_resolve dir [readme (vals ! j)])) = Inr preset
             \<and> mkdirp_sync
                  (path_dirname (path_resolve (BASE_URL d) [''source'', output_path (vals ! j)])) t1
                 = Inr t2
             \<and> toMarkdown u (recordDocument data (vals ! j) preset) = Inr out
             \<and> writeFileSync (path_resolve (BASE_URL d) [''source'', output_path (vals ! j)]) out t2
                 = Inr t3
             \<longrightarrow>
               rs ! j = Inr ()
             \<and> fs (ts ! Suc j) (path_resolve (BASE_URL d) [''source'', output_path (vals ! j)])
                 = Some (File out)
             \<and> new_events (ts ! j) (ts ! Suc j) =
                 [ReadFile (path_resolve dir [readme (vals ! j)]),
                  Mkdirp (path_dirname (path_resolve (BASE_URL d) [''source'', output_path (vals ! j)])),
                  WriteFile (path_resolve (BASE_URL d) [''source'', output_path (vals ! j)]) out,
                  Info (SyncOk (output_path (vals ! j)))])"
proof -
  let ?rs = "fst (mapRecords (syncRecord u d dir) vals s)"
  let ?ts = "executor_states (syncRecord u d dir) vals s"
  note run = processor_run [OF grp dir refl refl]
  have stay: "prefix (trace (?ts ! Suc j)) (trace (?ts ! length vals))" if "j < length vals" for j
    using trace_prefix_final [of "length vals" ?ts s
        "\<lambda>i. new_events (?ts ! i) (?ts ! Suc i)" "Suc j"] run(6) that
    by simp
  have miss: "?rs ! k = Inl (Message (NotExist (path_resolve dir [readme (vals ! k)])))
               \<and> ?ts ! Suc k = ?ts ! k
               \<and> (\<exists>i\<le>k. fst (P s) = ?rs ! i \<and> ?rs ! i \<noteq> Inr () \<and> (\<forall>i'<i. ?rs ! i' = Inr ()))
               \<and> ((\<forall>i<k. ?rs ! i = Inr ()) \<longrightarrow>
                     fst (P s) = Inl (Message (NotExist (path_resolve dir [readme (vals ! k)]))))"
    if k: "k < length vals"
      and no: "\<not> fileExists u (fs (?ts ! k)) (path_resolve dir [readme (vals ! k)])" for k
  proof -
    have "syncRecord u d dir (vals ! k) (?ts ! k)
            = (Inl (Message (NotExist (path_resolve dir [readme (vals ! k)]))), ?ts ! k)"
      using no by (simp add: syncRecord_def Let_def)
    with run(5) [OF k] have
      r: "?rs ! k = Inl (Message (NotExist (path_resolve dir [readme (vals ! k)])))"
      and t: "?ts ! Suc k = ?ts ! k"
      by simp_all
    have "k < length ?rs" "?rs ! k \<noteq> Inr ()"
      using k r by simp_all
    from promise_all_first [OF this] obtain i where
      i: "i \<le> k" "promise_all ?rs = ?rs ! i" "?rs ! i \<noteq> Inr ()" "\<forall>i'<i. ?rs ! i' = Inr ()"
      by blast
    have P: "fst (P s) = promise_all ?rs"
      using run(4) by simp
    have "fst (P s) = Inl (Message (NotExist (path_resolve dir [readme (vals ! k)])))"
      if "\<forall>i<k. ?rs ! i = Inr ()"
    proof -
      have "i = k" using i(1,3) that by (cases "i < k") auto
      then show ?thesis using P i(2) r by simp
    qed
    with r t i P show ?thesis by auto
  qed
  have ok: "?rs ! j = Inr ()
             \<and> fs (?ts ! Suc j) (path_resolve (BASE_URL d) [''source'', output_path (vals ! j)])
                 = Some (File out)
             \<and> new_events (?ts ! j) (?ts ! Suc j) =
                 [ReadFile (path_resolve dir [readme (vals ! j)]),
                  Mkdirp (path_dirname (path_resolve (BASE_URL d) [''source'', output_path (vals ! j)])),
                  WriteFile (path_resolve (BASE_URL d) [''source'', output_path (vals ! j)]) out,
                  Info (SyncOk (output_path (vals ! j)))]"
    if j: "j < length vals"
      and h: "fileExists u (fs (?ts ! j)) (path_resolve dir [readme (vals ! j)])
             \<and> readFileSync (path_resolve dir [readme (vals ! j)]) (?ts ! j) = Inr (src, t1)
             \<and> parseMarkdown u src = Inr data
             \<and> readPreset u (fs t1) (path_dirname (path_resolve dir [readme (vals ! j)])) = Inr preset
             \<and> mkdirp_sync
                  (path_dirname (path_resolve (BASE_URL d) [''source'', output_path (vals ! j)])) t1
                 = Inr t2
             \<and> toMarkdown u (recordDocument data (vals ! j) preset) = Inr out
             \<and> writeFileSync (path_resolve (BASE_URL d) [''source'', output_path (vals ! j)]) out t2
                 = Inr t3"
    for j src t1 data preset t2 out t3
  proof -
    have step: "syncRecord u d dir (vals ! j) (?ts ! j)
            = (Inr (), reporter_info (SyncOk (output_path (vals ! j))) t3)"
      using h by (intro syncRecord_ok) auto
    with run(5) [OF j] have
      r: "?rs ! j = Inr ()" and t: "?ts ! Suc j = reporter_info (SyncOk (output_path (vals ! j))) t3"
      by simp_all
    have f: "fs t3 (path_resolve (BASE_URL d) [''source'', output_path (vals ! j)]) = Some (File out)"
      using h by (auto simp: writeFileSync_def split: if_splits)
    have tr: "trace t3 = trace (?ts ! j) @
                 [ReadFile (path_resolve dir [readme (vals ! j)]),
                  Mkdirp (path_dirname (path_resolve (BASE_URL d) [''source'', output_path (vals ! j)])),
                  WriteFile (path_resolve (BASE_URL d) [''source'', output_path (vals ! j)]) out]"
      using h by (auto simp: writeFileSync_def mkdirp_sync_def readFileSync_def
                     split: if_splits option.splits node.splits)
    show ?thesis
      using r f tr unfolding t by (simp add: reporter_info_def new_events_def)
  qed
  have steps: "\<forall>j<length vals.
               syncRecord u d dir (vals ! j) (?ts ! j) = (?rs ! j, ?ts ! Suc j)
             \<and> prefix (trace (?ts ! Suc j)) (trace (?ts ! length vals))"
    using run(5) stay by simp
  show ?thesis
    apply (rule exI [of _ ?rs], rule exI [of _ ?ts])
    apply (intro conjI run(1) run(2) run(3) run(4) steps)
     apply (intro allI impI miss; assumption)
    apply (intro allI impI ok; assumption)
    done
qed

theorem missing_record_keeps_others_witness:
  "isDirectory ex_util (fs ex_acquired) [''repo'', ''tools'', ''mip-master'']
   \<and> \<not> fileExists ex_util
         (fs (snd (syncRecord ex_util [''repo'', ''tools''] [''repo'', ''tools'', ''mip-master'']
                     (getCore ex_components ! 0) ex_acquired)))
         [''repo'', ''tools'', ''mip-master'', ''docs'', ''b.md'']
   \<and> fst (coreProcessor ex_util ex_components [''repo'', ''tools''] ex_acquired)
       = Inl (Message (NotExist [''repo'', ''tools'', ''mip-master'', ''docs'', ''b.md'']))
   \<and> fs (snd (coreProcessor ex_util ex_components [''repo'', ''tools''] ex_acquired))
        [''repo'', ''source'', ''core'', ''c.md''] = Some (File ''C|c|false|body'')"
proof -
  let ?d = "[''repo'', ''tools'']"
  let ?dir = "[''repo'', ''tools'', ''mip-master'']"
  let ?vals = "getCore ex_components"
  let ?s1 = "snd (syncRecord ex_util ?d ?dir (?vals ! 0) ex_acquired)"
  let ?mdc = "[''repo'', ''tools'', ''mip-master'', ''docs'', ''c.md'']"
  let ?outc = "[''repo'', ''source'', ''core'', ''c.md'']"
  let ?t1 = "emit (ReadFile ?mdc) ?s1"
  let ?t2 = "emit (Mkdirp [''repo'', ''source'', ''core''])
               (?t1\<lparr>fs := (\<lambda>q. if prefix q [''repo'', ''source'', ''core''] then Some Dir
                               else fs ?t1 q)\<rparr>)"
  let ?t3 = "emit (WriteFile ?outc ''C|c|false|body'')
               (?t2\<lparr>fs := (fs ?t2)(?outc \<mapsto> File ''C|c|false|body'')\<rparr>)"
  have dir: "isDirectory ex_util (fs ex_acquired) ?dir"
    by (simp add: ex_defs)
  have len: "length ?vals = 3"
    by (simp add: ex_defs)
  have paths:
    "path_resolve ?dir [readme (?vals ! 1)] = [''repo'', ''tools'', ''mip-master'', ''docs'', ''b.md'']"
    "path_resolve ?dir [readme (?vals ! 2)] = ?mdc"
    "path_resolve (BASE_URL ?d) [''source'', output_path (?vals ! 2)] = ?outc"
    "path_dirname ?outc = [''repo'', ''source'', ''core'']"
    "path_dirname ?mdc = [''repo'', ''tools'', ''mip-master'', ''docs'']"
    by (simp_all add: ex_defs path_defs)
  have a: "fst (syncRecord ex_util ?d ?dir (?vals ! 0) ex_acquired) = Inr ()"
    by (simp add: proc_defs ex_defs path_defs io_defs)
  have nb: "\<not> fileExists ex_util (fs ?s1) [''repo'', ''tools'', ''mip-master'', ''docs'', ''b.md'']"
    by (simp add: proc_defs ex_defs path_defs io_defs)
  have c1: "fileExists ex_util (fs ?s1) ?mdc"
    by (simp add: proc_defs ex_defs path_defs io_defs)
  have c2: "readFileSync ?mdc ?s1 = Inr (''Cbody'', ?t1)"
    by (simp add: proc_defs ex_defs path_defs io_defs)
  have c3: "parseMarkdown ex_util ''Cbody''
              = Inr \<lparr>title = ''C'', content = ''body'', deps = [''mip-img'']\<rparr>"
    by (simp add: ex_defs)
  have c4: "readPreset ex_util (fs ?t1) [''repo'', ''tools'', ''mip-master'', ''docs''] = Inr ''preset''"
    by (simp add: ex_defs)
  have nofile: "\<not> is_file (fs ?s1 [])" "\<not> is_file (fs ?s1 [''repo''])"
    "\<not> is_file (fs ?s1 [''repo'', ''source''])" "\<not> is_file (fs ?s1 [''repo'', ''source'', ''core''])"
    by (simp_all add: proc_defs ex_defs path_defs io_defs)
  have c5: "mkdirp_sync [''repo'', ''source'', ''core''] ?t1 = Inr ?t2"
    using nofile by (simp add: mkdirp_sync_def)
  have c6: "toMarkdown ex_util
              (recordDocument \<lparr>title = ''C'', content = ''body'', deps = [''mip-img'']\<rparr>
                 (?vals ! 2) ''preset'') = Inr ''C|c|false|body''"
    by (simp add: recordDocument_def ex_defs)
  have free: "fs ?s1 ?outc = None"
    by (simp add: proc_defs ex_defs path_defs io_defs)
  have c7: "writeFileSync ?outc ''C|c|false|body'' ?t2 = Inr ?t3"
    using free by (simp add: writeFileSync_def path_dirname_def)
  from missing_record_keeps_others [OF ex_group dir] obtain rs ts where
    r: "ts ! 0 = ex_acquired"
       "coreProcessor ex_util ex_components ?d ex_acquired = (promise_all rs, ts ! length ?vals)"
       "\<forall>j<length ?vals.
           syncRecord ex_util ?d ?dir (?vals ! j) (ts ! j) = (rs ! j, ts ! Suc j)
         \<and> prefix (trace (ts ! Suc j)) (trace (ts ! length ?vals))"
       "\<forall>k<length ?vals.
           \<not> fileExists ex_util (fs (ts ! k)) (path_resolve ?dir [readme (?vals ! k)]) \<longrightarrow>
             rs ! k = Inl (Message (NotExist (path_resolve ?dir [readme (?vals ! k)])))
           \<and> ts ! Suc k = ts ! k
           \<and> (\<exists>i\<le>k. fst (coreProcessor ex_util ex_components ?d ex_acquired) = rs ! i
                  \<and> rs ! i \<noteq> Inr () \<and> (\<forall>i'<i. rs ! i' = Inr ()))
           \<and> ((\<forall>i<k. rs ! i = Inr ()) \<longrightarrow>
                 fst (coreProcessor ex_util ex_components ?d ex_acquired)
                   = Inl (Message (NotExist (path_resolve ?dir [readme (?vals ! k)]))))"
       "\<forall>j<length ?vals. \<forall>src t1 data preset t2 out t3.
               fileExists ex_util (fs (ts ! j)) (path_resolve ?dir [readme (?vals ! j)])
             \<and> readFileSync (path_resolve ?dir [readme (?vals ! j)]) (ts ! j) = Inr (src, t1)
             \<and> parseMarkdown ex_util src = Inr data
             \<and> readPreset ex_util (fs t1) (path_dirname (path_resolve ?dir [readme (?vals ! j)]))
                 = Inr preset
             \<and> mkdirp_sync
                  (path_dirname (path_resolve (BASE_URL ?d) [''source'', output_path (?vals ! j)])) t1
                 = Inr t2
             \<and> toMarkdown ex_util (recordDocument data (?vals ! j) preset) = Inr out
             \<and> writeFileSync (path_resolve (BASE_URL ?d) [''source'', output_path (?vals ! j)]) out t2
                 = Inr t3
             \<longrightarrow>
               rs ! j = Inr ()
             \<and> fs (ts ! Suc j) (path_resolve (BASE_URL ?d) [''source'', output_path (?vals ! j)])
                 = Some (File out)
             \<and> new_events (ts ! j) (ts ! Suc j) =
                 [ReadFile (path_resolve ?dir [readme (?vals ! j)]),
                  Mkdirp (path_dirname (path_resolve (BASE_URL ?d) [''source'', output_path (?vals ! j)])),
                  WriteFile (path_resolve (BASE_URL ?d) [''source'', output_path (?vals ! j)]) out,
                  Info (SyncOk (output_path (?vals ! j)))]"
    by blast
  have step0: "syncRecord ex_util ?d ?dir (?vals ! 0) (ts ! 0) = (rs ! 0, ts ! Suc 0)"
    using r(3) len by simp
  have rs0: "rs ! 0 = Inr ()" and ts1: "ts ! 1 = ?s1"
    using step0 a unfolding r(1) by (simp_all add: prod_eq_iff)
  have k1: "rs ! 1 = Inl (Message (NotExist [''repo'', ''tools'', ''mip-master'', ''docs'', ''b.md'']))
      \<and> ts ! Suc 1 = ts ! 1
      \<and> ((\<forall>i<1. rs ! i = Inr ()) \<longrightarrow>
            fst (coreProcessor ex_util ex_components ?d ex_acquired)
              = Inl (Message (NotExist [''repo'', ''tools'', ''mip-master'', ''docs'', ''b.md''])))"
    using r(4) [rule_format, of 1] nb len unfolding ts1 paths by simp
  then have ts2: "ts ! 2 = ?s1"
    using ts1 by (simp add: numeral_2_eq_2)
  have agg: "fst (coreProcessor ex_util ex_components ?d ex_acquired)
              = Inl (Message (NotExist [''repo'', ''tools'', ''mip-master'', ''docs'', ''b.md'']))"
    using k1 rs0 by simp
  have "fs (ts ! Suc 2) ?outc = Some (File ''C|c|false|body'')"
    using r(5) [rule_format, of 2 "''Cbody''" ?t1
        "\<lparr>title = ''C'', content = ''body'', deps = [''mip-img'']\<rparr>" "''preset''" ?t2
        "''C|c|false|body''" ?t3]
      c1 c2 c3 c4 c5 c6 c7 len
    unfolding ts2 paths by simp
  moreover have "ts ! Suc 2 = snd (coreProcessor ex_util ex_components ?d ex_acquired)"
    using r(2) len by (simp add: numeral_3_eq_3)
  ultimately have written:
    "fs (snd (coreProcessor ex_util ex_components ?d ex_acquired)) ?outc
       = Some (File ''C|c|false|body'')"
    by simp
  show ?thesis
    using dir nb agg written by simp
qed

section \<open>The local copy\<close>

lemma strip_prefix_append [simp]: "strip_prefix p (p @ r) = Some r"
  by (induction p) auto

lemma stat_of_directory [simp]: "stat_of nd = ''directory'' \<longleftrightarrow> nd = Dir"
  by (cases nd) (auto simp: stat_of_def)

lemma copied_iff:
  "copied copy_filter fsys from rel \<longleftrightarrow>
     (\<forall>r. prefix r rel \<and> r \<noteq> [] \<longrightarrow>
        (\<exists>nd. fsys (from @ r) = Some nd \<and> (r \<noteq> rel \<longrightarrow> nd = Dir)
            \<and> \<not> (nd = Dir \<and> last r = ''node_modules'')))"
proof (induction rel arbitrary: "from")
  case Nil
  then show ?case by simp
next
  case (Cons n rest)
  have split: "(\<forall>r. prefix r (n # rest) \<and> r \<noteq> [] \<longrightarrow> Q r)
      \<longleftrightarrow> Q [n] \<and> (\<forall>r'. prefix r' rest \<and> r' \<noteq> [] \<longrightarrow> Q (n # r'))" for Q
    by (auto simp: prefix_Cons)
  show ?case
    unfolding split copied.simps Cons.IH
    by (cases "fsys (from @ [n])") (auto simp: copy_filter_def)
qed

lemma ex_launchCore: "fst (launchCore ex_env ex_state) = Some Queued"
  by (simp add: launchCore_def copydir_sync_def ex_env_def ex_state_def ex_defs path_defs io_defs
        Let_def)

lemma ex_launchExtensions: "fst (launchExtensions ex_env s) = Some Downloading"
  by (simp add: launchExtensions_def ex_env_def)

text \<open>
  Claim C8. When a launch has copied the local directory \<open>from\<close> into the temporary
  directory \<open>to\<close> of its group, then for every entry \<open>from @ rel\<close> below \<open>from\<close>:
  if some directory on the way from \<open>from\<close> to the entry, or the entry itself, is a
  directory named \<^verbatim>\<open>node_modules\<close>, nothing is copied to \<open>to @ rel\<close>, which is left as it
  was; and if there is none, and the entry exists below directories, \<open>to @ rel\<close> holds a
  copy of the entry.
\<close>

theorem copy_skips_node_modules:
  assumes launch:
        "(launchCore e s = (Some Queued, s') \<and> argv_core e = JStr a
            \<and> to = path_resolve (TOOLS_PATH (dirname e)) [''mip-master''])
       \<or> (launchExtensions e s = (Some Queued, s') \<and> argv_extensions e = JStr a
            \<and> to = path_resolve (TOOLS_PATH (dirname e)) [''mip-extensions-master''])"
      and src: "from = path_resolve (cwd e) [a]"
      and rel: "rel \<noteq> []"
  shows "((\<exists>r. prefix r rel \<and> r \<noteq> [] \<and> last r = ''node_modules'' \<and> fs s (from @ r) = Some Dir)
            \<longrightarrow> fs s' (to @ rel) = fs s (to @ rel))
       \<and> ((\<forall>r. prefix r rel \<and> r \<noteq> [] \<longrightarrow>
               (\<exists>nd. fs s (from @ r) = Some nd \<and> (r \<noteq> rel \<longrightarrow> nd = Dir))
             \<and> \<not> (last r = ''node_modules'' \<and> fs s (from @ r) = Some Dir))
            \<longrightarrow> fs s' (to @ rel) = fs s (from @ rel))"
proof -
  have "\<exists>s0. fs s0 = fs s \<and> copydir_sync from to copy_filter s0 = Inr s'"
    using launch
  proof
    assume "launchCore e s = (Some Queued, s') \<and> argv_core e = JStr a
            \<and> to = path_resolve (TOOLS_PATH (dirname e)) [''mip-master'']"
    then show ?thesis
      unfolding src
      by (intro exI [of _ "reporter_info (LoadLocalCore (path_resolve (cwd e) [a])) s"])
         (auto simp: launchCore_def Let_def reporter_info_def split: if_splits sum.splits)
  next
    assume "launchExtensions e s = (Some Queued, s') \<and> argv_extensions e = JStr a
            \<and> to = path_resolve (TOOLS_PATH (dirname e)) [''mip-extensions-master'']"
    then show ?thesis
      unfolding src
      by (intro exI [of _ "reporter_info (LoadLocalExtensions (path_resolve (cwd e) [a])) s"])
         (auto simp: launchExtensions_def Let_def reporter_info_def split: if_splits sum.splits)
  qed
  then obtain s0 where s0: "fs s0 = fs s" "copydir_sync from to copy_filter s0 = Inr s'"
    by blast
  obtain n rest where r: "rel = n # rest"
    using rel by (cases rel) auto
  have look: "fs s' (to @ rel) =
      (if copied copy_filter (fs s) from rel then fs s (from @ rel) else fs s (to @ rel))"
    using s0 by (auto simp: copydir_sync_def r split: if_splits)
  show ?thesis
    unfolding look copied_iff by auto
qed

theorem copy_skips_node_modules_witness:
  "fst (launchCore ex_env ex_state) = Some Queued
   \<and> fs ex_state [''work'', ''mip'', ''node_modules''] = Some Dir
   \<and> fs (snd (launchCore ex_env ex_state)) [''repo'', ''tools'', ''mip-master'', ''node_modules'', ''x.js'']
       = None
   \<and> fs (snd (launchCore ex_env ex_state)) [''repo'', ''tools'', ''mip-master'', ''docs'', ''a.md'']
       = Some (File ''Abody'')"
proof -
  let ?s1 = "snd (launchCore ex_env ex_state)"
  let ?to = "[''repo'', ''tools'', ''mip-master'']"
  let ?from = "[''work'', ''mip'']"
  have q: "fst (launchCore ex_env ex_state) = Some Queued"
    by (rule ex_launchCore)
  then have l: "(launchCore ex_env ex_state = (Some Queued, ?s1) \<and> argv_core ex_env = JStr ''mip''
            \<and> ?to = path_resolve (TOOLS_PATH (dirname ex_env)) [''mip-master''])
       \<or> (launchExtensions ex_env ex_state = (Some Queued, ?s1) \<and> argv_extensions ex_env = JStr ''mip''
            \<and> ?to = path_resolve (TOOLS_PATH (dirname ex_env)) [''mip-extensions-master''])"
    by (simp add: prod_eq_iff ex_env_def path_defs)
  have src: "?from = path_resolve (cwd ex_env) [''mip'']"
    by (simp add: ex_env_def path_defs)
  have nm: "fs ex_state [''work'', ''mip'', ''node_modules''] = Some Dir"
    by (simp add: ex_state_def)
  have ex1: "\<exists>r. prefix r [''node_modules'', ''x.js''] \<and> r \<noteq> [] \<and> last r = ''node_modules''
      \<and> fs ex_state (?from @ r) = Some Dir"
    using nm by (intro exI [of _ "[''node_modules'']"]) simp
  have all2: "\<forall>r. prefix r [''docs'', ''a.md''] \<and> r \<noteq> [] \<longrightarrow>
               (\<exists>nd. fs ex_state (?from @ r) = Some nd \<and> (r \<noteq> [''docs'', ''a.md''] \<longrightarrow> nd = Dir))
             \<and> \<not> (last r = ''node_modules'' \<and> fs ex_state (?from @ r) = Some Dir)"
    by (auto simp: prefix_Cons ex_state_def)
  have skipped: "fs ?s1 (?to @ [''node_modules'', ''x.js'']) = fs ex_state (?to @ [''node_modules'', ''x.js''])"
    using copy_skips_node_modules [OF l src, of "[''node_modules'', ''x.js'']"] ex1 by blast
  have kept: "fs ?s1 (?to @ [''docs'', ''a.md'']) = fs ex_state (?from @ [''docs'', ''a.md''])"
    using copy_skips_node_modules [OF l src, of "[''docs'', ''a.md'']"] all2 by blast
  have v: "fs ex_state (?to @ [''node_modules'', ''x.js'']) = None"
    "fs ex_state (?from @ [''docs'', ''a.md'']) = Some (File ''Abody'')"
    by (simp_all add: ex_state_def)
  show ?thesis
    using q nm skipped kept v by simp
qed

section \<open>The events of a run\<close>

lemma trace_clean: "trace (clean d s) = trace s @ cleanup_events d"
  by (simp add: clean_def cleanup_events_def rimraf_sync_def)


lemma tools_paths:
  "path_resolve (TOOLS_PATH d) [''mip-extensions-master.zip''] = butlast d @ [''tools'', ''mip-extensions-master.zip'']"
  "path_resolve (TOOLS_PATH d) [''mip-extensions-master''] = butlast d @ [''tools'', ''mip-extensions-master'']"
  "path_resolve (TOOLS_PATH d) [''mip-master.zip''] = butlast d @ [''tools'', ''mip-master.zip'']"
  "path_resolve (TOOLS_PATH d) [''mip-master''] = butlast d @ [''tools'', ''mip-master'']"
  "path_resolve (BASE_URL d) [''./source/examples''] = butlast d @ [''source'', ''examples'']"
  by (simp_all add: path_defs)




lemma work_not_launch: "work_event ev \<Longrightarrow> \<not> launch_event ev"
  by (cases ev rule: work_event.cases) auto

lemma processor_events:
  "\<exists>evs. trace (snd (coreProcessor u c d s)) = trace s @ evs \<and> list_all work_event evs"
  "\<exists>evs. trace (snd (extensionsProcessor u c d s)) = trace s @ evs \<and> list_all work_event evs"
proof -
  have m: "\<exists>evs. trace (snd (mapRecords (syncRecord u d dir) vals s)) = trace s @ evs
              \<and> list_all work_event evs" for dir vals
    using mapRecords_events [of u d dir vals s]
    by (cases "mapRecords (syncRecord u d dir) vals s") auto
  show "\<exists>evs. trace (snd (coreProcessor u c d s)) = trace s @ evs \<and> list_all work_event evs"
    using m [of "path_resolve (TOOLS_PATH d) [''mip-master'']" "getCore c"]
    by (auto simp: coreProcessor_def Let_def split: prod.splits)
  show "\<exists>evs. trace (snd (extensionsProcessor u c d s)) = trace s @ evs \<and> list_all work_event evs"
    using m [of "path_resolve (TOOLS_PATH d) [''mip-extensions-master'']" "getExtensions c"]
    by (auto simp: extensionsProcessor_def Let_def split: prod.splits)
qed

lemma runProcessor_events:
  "\<exists>evs. trace (snd (runProcessor e l s)) = trace s @ evs \<and> list_all work_event evs"
  using processor_events [of "util e" "components e" "dirname e" s]
  by (cases l) (auto simp: runProcessor_def split: prod.splits sum.splits)

lemma ioDone_events:
  "\<exists>evs. trace (snd (ioDone e l st s)) = trace s @ evs \<and> list_all work_event evs"
proof (cases st)
  case (Unzipping zip)
  show ?thesis
  proof (cases "unzipFile (util e) zip (fs s)")
    case (Inl err)
    then show ?thesis using Unzipping by (simp add: ioDone_def)
  next
    case (Inr fs1)
    then show ?thesis
      using Unzipping runProcessor_events [of e l "s\<lparr>fs := fs1\<rparr>"] by (simp add: ioDone_def)
  qed
qed (auto simp: ioDone_def split: sum.splits prod.splits)

lemma event_loop_end:
  "\<exists>pre t lc' le'. trace t = trace s @ pre \<and> list_all work_event pre
     \<and> (event_loop e n lc le s = onFulfilled e lc' le' t \<and> lc' = Fulfilled \<and> le' = Fulfilled
        \<or> (\<exists>err. event_loop e n lc le s = onRejected e err lc' le' t
               \<and> first_rejection (tie e) lc' le' = Some err))"
proof (induction e n lc le s rule: event_loop.induct)
  case (1 e n lc le s)
  let ?goal = "\<lambda>r s0. \<exists>pre t lc' le'. trace t = trace s0 @ pre \<and> list_all work_event pre
     \<and> (r = onFulfilled e lc' le' t \<and> lc' = Fulfilled \<and> le' = Fulfilled
        \<or> (\<exists>err. r = onRejected e err lc' le' t \<and> first_rejection (tie e) lc' le' = Some err))"
  have extend: "?goal r s" if "?goal r s1" "trace s1 = trace s @ evs" "list_all work_event evs" for r s1 evs
  proof -
    from that(1) obtain pre t lc' le' where
      p: "trace t = trace s1 @ pre" "list_all work_event pre"
         "r = onFulfilled e lc' le' t \<and> lc' = Fulfilled \<and> le' = Fulfilled
        \<or> (\<exists>err. r = onRejected e err lc' le' t \<and> first_rejection (tie e) lc' le' = Some err)"
      by blast
    have "trace t = trace s @ (evs @ pre)" "list_all work_event (evs @ pre)"
      using p(1,2) that(2,3) by simp_all
    with p(3) show ?thesis by blast
  qed
  show ?case
  proof (cases "lc = Queued")
    case True
    obtain evs where ev: "trace (snd (runProcessor e Core s)) = trace s @ evs" "list_all work_event evs"
      using runProcessor_events by blast
    have "event_loop e n lc le s
            = event_loop e n (fst (runProcessor e Core s)) le (snd (runProcessor e Core s))"
      using True by (subst event_loop.simps) auto
    then show ?thesis
      using extend [OF "1.IH"(1) [OF True] ev] by simp
  next
    case lc: False
    show ?thesis
    proof (cases "le = Queued")
      case True
      obtain evs where ev: "trace (snd (runProcessor e Extensions s)) = trace s @ evs"
          "list_all work_event evs"
        using runProcessor_events by blast
      have "event_loop e n lc le s
            = event_loop e n lc (fst (runProcessor e Extensions s)) (snd (runProcessor e Extensions s))"
        using lc True by (subst event_loop.simps) auto
      then show ?thesis
        using extend [OF "1.IH"(2) [OF lc True] ev] by simp
    next
      case le: False
      show ?thesis
      proof (cases "first_rejection (tie e) lc le")
        case (Some err)
        have "event_loop e n lc le s = onRejected e err lc le s"
          using lc le Some by (subst event_loop.simps) auto
        then show ?thesis
          using Some by (intro exI [of _ "[]"] exI [of _ s] exI [of _ lc] exI [of _ le]) simp
      next
        case None
        then have rej: "\<not> first_rejection (tie e) lc le \<noteq> None" by simp
        show ?thesis
        proof (cases "lc = Fulfilled \<and> le = Fulfilled")
          case True
          have "event_loop e n lc le s = onFulfilled e lc le s"
            using lc le None True by (subst event_loop.simps) auto
          then show ?thesis
            using True by (intro exI [of _ "[]"] exI [of _ s] exI [of _ lc] exI [of _ le]) simp
        next
          case ful: False
          show ?thesis
          proof (cases "pending lc \<and> (\<not> pending le \<or> pick e n = Core)")
            case True
            obtain evs where ev: "trace (snd (ioDone e Core lc s)) = trace s @ evs"
                "list_all work_event evs"
              using ioDone_events by blast
            have "event_loop e n lc le s
              = event_loop e (Suc n) (fst (ioDone e Core lc s)) le (snd (ioDone e Core lc s))"
              using lc le None ful True by (subst event_loop.simps) auto
            then show ?thesis
              using extend [OF "1.IH"(3) [OF lc le rej ful True] ev] by simp
          next
            case False
            obtain evs where ev: "trace (snd (ioDone e Extensions le s)) = trace s @ evs"
                "list_all work_event evs"
              using ioDone_events by blast
            have "event_loop e n lc le s
              = event_loop e (Suc n) lc (fst (ioDone e Extensions le s)) (snd (ioDone e Extensions le s))"
              using lc le None ful False by (subst event_loop.simps) auto
            then show ?thesis
              using extend [OF "1.IH"(4) [OF lc le rej ful False] ev] by simp
          qed
        qed
      qed
    qed
  qed
qed

lemma launchCore_Some:
  assumes "launchCore e s = (Some st, s1)"
  shows "\<exists>evs. trace s1 = trace s @ evs \<and> evs \<noteq> [] \<and> list_all launch_event evs"
  using assms
  by (auto simp: launchCore_def Let_def copydir_sync_def reporter_info_def process_exit_def
        reporter_error_def split: if_splits js_value.splits sum.splits)

lemma launchExtensions_Some:
  assumes "launchExtensions e s = (Some st, s1)"
  shows "\<exists>evs. trace s1 = trace s @ evs \<and> evs \<noteq> [] \<and> list_all launch_event evs"
  using assms
  by (auto simp: launchExtensions_def Let_def copydir_sync_def reporter_info_def process_exit_def
        reporter_error_def split: if_splits js_value.splits sum.splits)



lemma main_launched:
  assumes "launchCore e s = (Some lc, s1)" and "launchExtensions e s1 = (Some le, s2)"
  shows "\<exists>acq1 acq2 pre t lc' le'.
           trace s1 = trace s @ acq1 \<and> acq1 \<noteq> [] \<and> list_all launch_event acq1
         \<and> trace s2 = trace s1 @ acq2 \<and> acq2 \<noteq> [] \<and> list_all launch_event acq2
         \<and> trace t = trace s @ acq1 @ acq2
               @ [Info SyncStart, Rimraf (path_resolve (BASE_URL (dirname e)) [''./source/examples''])]
               @ pre
         \<and> list_all work_event pre
         \<and> (main e s = onFulfilled e lc' le' t \<and> lc' = Fulfilled \<and> le' = Fulfilled
            \<or> (\<exists>err. main e s = onRejected e err lc' le' t
                   \<and> first_rejection (tie e) lc' le' = Some err))"
proof -
  let ?s3 = "rimraf_sync (path_resolve (BASE_URL (dirname e)) [''./source/examples''])
               (reporter_info SyncStart s2)"
  from launchCore_Some [OF assms(1)] obtain acq1 where
    a1: "trace s1 = trace s @ acq1" "acq1 \<noteq> []" "list_all launch_event acq1" by blast
  from launchExtensions_Some [OF assms(2)] obtain acq2 where
    a2: "trace s2 = trace s1 @ acq2" "acq2 \<noteq> []" "list_all launch_event acq2" by blast
  have m: "main e s = event_loop e 0 lc le ?s3"
    using assms by (simp add: main_def)
  have t3: "trace ?s3 = trace s @ acq1 @ acq2
      @ [Info SyncStart, Rimraf (path_resolve (BASE_URL (dirname e)) [''./source/examples''])]"
    using a1(1) a2(1) by (simp add: rimraf_sync_def reporter_info_def)
  from event_loop_end [of ?s3 e 0 lc le] obtain pre t lc' le' where
    p: "trace t = trace ?s3 @ pre" "list_all work_event pre"
       "event_loop e 0 lc le ?s3 = onFulfilled e lc' le' t \<and> lc' = Fulfilled \<and> le' = Fulfilled
        \<or> (\<exists>err. event_loop e 0 lc le ?s3 = onRejected e err lc' le' t
               \<and> first_rejection (tie e) lc' le' = Some err)"
    by blast
  have "trace t = trace s @ acq1 @ acq2
               @ [Info SyncStart, Rimraf (path_resolve (BASE_URL (dirname e)) [''./source/examples''])]
               @ pre"
    using p(1) t3 by simp
  with a1 a2 p(2,3) m show ?thesis
    by - (rule exI [of _ acq1], rule exI [of _ acq2], rule exI [of _ pre], rule exI [of _ t],
          rule exI [of _ lc'], rule exI [of _ le'], simp)
qed

lemma trace_onFulfilled:
  "trace (final (onFulfilled e lc le t)) = trace t @ cleanup_events (dirname e) @ [Info SyncSuccess]"
  by (simp add: onFulfilled_def reporter_info_def trace_clean)

lemma trace_onRejected:
  "trace (final (onRejected e err lc le t))
     = trace t @ [Error err] @ cleanup_events (dirname e) @ [Exit 1]"
  by (simp add: onRejected_def reporter_error_def process_exit_def trace_clean)






lemmas run_defs = main_def launchCore_def launchExtensions_def ex_env_def ex_state_def
  copydir_sync_def copy_filter_def reporter_error_def process_exit_def stat_of_def
  rimraf_sync_def event_loop.simps runProcessor_def coreProcessor_def extensionsProcessor_def
  syncRecord_def recordDocument_def first_rejection_def onRejected_def onFulfilled_def clean_def
  core_git_def extensions_git_def ioDone_def Let_def

lemma ex_run:
  "trace (final (main ex_env ex_state)) =
     [Info (LoadLocalCore [''work'', ''mip'']),
      CopyDir [''work'', ''mip''] [''repo'', ''tools'', ''mip-master''],
      DownGit ''https://github.com/mipengine/mip-extensions/archive/master.zip''
        [''repo'', ''tools'', ''mip-extensions-master.zip''],
      Info SyncStart, Rimraf [''repo'', ''source'', ''examples''],
      ReadFile [''repo'', ''tools'', ''mip-master'', ''docs'', ''a.md''],
      Mkdirp [''repo'', ''source'', ''core''],
      WriteFile [''repo'', ''source'', ''core'', ''a.md''] ''A|a|true|body'',
      Info (SyncOk ''core/a.md''),
      ReadFile [''repo'', ''tools'', ''mip-master'', ''docs'', ''c.md''],
      Mkdirp [''repo'', ''source'', ''core''],
      WriteFile [''repo'', ''source'', ''core'', ''c.md''] ''C|c|false|body'',
      Info (SyncOk ''core/c.md''),
      Error (Message (NotExist [''repo'', ''tools'', ''mip-master'', ''docs'', ''b.md''])),
      Rimraf [''repo'', ''tools'', ''mip-extensions-master.zip''],
      Rimraf [''repo'', ''tools'', ''mip-extensions-master''],
      Rimraf [''repo'', ''tools'', ''mip-master.zip''],
      Rimraf [''repo'', ''tools'', ''mip-master''], Exit 1]"
  "core_lane (main ex_env ex_state)
     = Some (Rejected (Message (NotExist [''repo'', ''tools'', ''mip-master'', ''docs'', ''b.md''])))"
  "extensions_lane (main ex_env ex_state) = Some Downloading"
  "exit_code (main ex_env ex_state) = 1"
  by (simp_all add: run_defs ex_defs path_defs io_defs)


section \<open>The checks of the local paths\<close>




section \<open>The removal of the examples\<close>

text \<open>
  Claim C6 says that \<^verbatim>\<open>source/examples\<close> is removed before either lane is launched.
  In the run of \<open>ex_env\<close> the local copy of the core tree is complete and the download of
  the extensions archive has been started when the directory is removed: line 223 comes
  after the construction of \<^verbatim>\<open>queue\<close>.
\<close>

theorem examples_removed_first_counterexample:
  "take 5 (trace (final (main ex_env ex_state))) =
     [Info (LoadLocalCore [''work'', ''mip'']),
      CopyDir [''work'', ''mip''] [''repo'', ''tools'', ''mip-master''],
      DownGit extensions_git [''repo'', ''tools'', ''mip-extensions-master.zip''],
      Info SyncStart,
      Rimraf [''repo'', ''source'', ''examples'']]"
  by (simp add: ex_run extensions_git_def)

text \<open>
  Claim C6, amended. In every run in which both lanes are launched, the events of the run
  are the events of the core launch, then those of the extensions launch, then the start
  line and the removal of \<^verbatim>\<open>source/examples\<close>, then the rest; both launches have
  events (a local copy that has completed or failed, or a download that has been
  started); the rest has no event of a launch and no second removal; and every read,
  directory creation, write, success line and extraction of the run is in the rest.
\<close>

theorem examples_removed_after_launch:
  assumes "launchCore e s = (Some lc, s1)" and "launchExtensions e s1 = (Some le, s2)"
  shows "\<exists>rest.
           new_events s (final (main e s))
             = new_events s s1 @ new_events s1 s2
               @ [Info SyncStart, Rimraf (path_resolve (BASE_URL (dirname e)) [''./source/examples''])]
               @ rest
         \<and> new_events s s1 \<noteq> [] \<and> list_all launch_event (new_events s s1)
         \<and> new_events s1 s2 \<noteq> [] \<and> list_all launch_event (new_events s1 s2)
         \<and> (\<forall>ev\<in>set rest. \<not> launch_event ev
                \<and> ev \<noteq> Rimraf (path_resolve (BASE_URL (dirname e)) [''./source/examples'']))
         \<and> (\<forall>ev\<in>set (new_events s (final (main e s))). work_event ev \<longrightarrow> ev \<in> set rest)"
proof -
  let ?ex = "Rimraf (path_resolve (BASE_URL (dirname e)) [''./source/examples''])"
  from main_launched [OF assms] obtain acq1 acq2 pre t lc' le' where
    m: "trace s1 = trace s @ acq1" "acq1 \<noteq> []" "list_all launch_event acq1"
       "trace s2 = trace s1 @ acq2" "acq2 \<noteq> []" "list_all launch_event acq2"
       "trace t = trace s @ acq1 @ acq2 @ [Info SyncStart, ?ex] @ pre"
       "list_all work_event pre"
       "main e s = onFulfilled e lc' le' t \<and> lc' = Fulfilled \<and> le' = Fulfilled
            \<or> (\<exists>err. main e s = onRejected e err lc' le' t
                   \<and> first_rejection (tie e) lc' le' = Some err)"
    by blast
  have n1: "new_events s s1 = acq1" using m(1) by (rule new_events_eq)
  have n2: "new_events s1 s2 = acq2" using m(4) by (rule new_events_eq)
  obtain tail where
    tl: "trace (final (main e s)) = trace t @ tail"
        "\<forall>ev\<in>set tail. \<not> launch_event ev \<and> \<not> work_event ev \<and> ev \<noteq> ?ex"
  proof -
    from m(9) show ?thesis
    proof
      assume "main e s = onFulfilled e lc' le' t \<and> lc' = Fulfilled \<and> le' = Fulfilled"
      then have "trace (final (main e s)) = trace t @ (cleanup_events (dirname e) @ [Info SyncSuccess])"
        by (simp add: trace_onFulfilled)
      moreover have "\<forall>ev\<in>set (cleanup_events (dirname e) @ [Info SyncSuccess]).
                       \<not> launch_event ev \<and> \<not> work_event ev \<and> ev \<noteq> ?ex"
        by (simp add: cleanup_events_def tools_paths)
      ultimately show ?thesis by (rule that)
    next
      assume "\<exists>err. main e s = onRejected e err lc' le' t
                   \<and> first_rejection (tie e) lc' le' = Some err"
      then obtain err where "main e s = onRejected e err lc' le' t" by blast
      then have "trace (final (main e s))
                   = trace t @ ([Error err] @ cleanup_events (dirname e) @ [Exit 1])"
        by (simp add: trace_onRejected)
      moreover have "\<forall>ev\<in>set ([Error err] @ cleanup_events (dirname e) @ [Exit 1]).
                       \<not> launch_event ev \<and> \<not> work_event ev \<and> ev \<noteq> ?ex"
        by (simp add: cleanup_events_def tools_paths)
      ultimately show ?thesis by (rule that)
    qed
  qed
  have "trace (final (main e s)) = trace s @ (acq1 @ acq2 @ [Info SyncStart, ?ex] @ (pre @ tail))"
    using tl(1) m(7) by simp
  then have ne: "new_events s (final (main e s)) = acq1 @ acq2 @ [Info SyncStart, ?ex] @ (pre @ tail)"
    by (rule new_events_eq)
  have rest: "\<forall>ev\<in>set (pre @ tail). \<not> launch_event ev \<and> ev \<noteq> ?ex"
    using tl(2) m(8) work_not_launch by (auto simp: list_all_iff)
  have work: "\<forall>ev\<in>set (acq1 @ acq2 @ [Info SyncStart, ?ex] @ (pre @ tail)).
                work_event ev \<longrightarrow> ev \<in> set (pre @ tail)"
    using m(3,6) work_not_launch by (auto simp: list_all_iff)
  show ?thesis
    unfolding n1 n2 ne
    using m(2,3,5,6) rest work by - (rule exI [of _ "pre @ tail"], simp)
qed

theorem examples_removed_after_launch_witness:
  "fst (launchCore ex_env ex_state) = Some Queued
   \<and> fst (launchExtensions ex_env (snd (launchCore ex_env ex_state))) = Some Downloading
   \<and> (\<exists>rest.
         new_events ex_state (final (main ex_env ex_state))
           = new_events ex_state (snd (launchCore ex_env ex_state))
             @ new_events (snd (launchCore ex_env ex_state))
                 (snd (launchExtensions ex_env (snd (launchCore ex_env ex_state))))
             @ [Info SyncStart, Rimraf (path_resolve (BASE_URL (dirname ex_env)) [''./source/examples''])]
             @ rest
       \<and> (\<forall>ev\<in>set rest. \<not> launch_event ev))"
proof -
  let ?s1 = "snd (launchCore ex_env ex_state)"
  let ?s2 = "snd (launchExtensions ex_env ?s1)"
  have a: "launchCore ex_env ex_state = (Some Queued, ?s1)"
    using ex_launchCore by (simp add: prod_eq_iff)
  have b: "launchExtensions ex_env ?s1 = (Some Downloading, ?s2)"
    using ex_launchExtensions [of ?s1] by (simp add: prod_eq_iff)
  from examples_removed_after_launch [OF a b] obtain rest where
    "new_events ex_state (final (main ex_env ex_state))
           = new_events ex_state ?s1 @ new_events ?s1 ?s2
             @ [Info SyncStart, Rimraf (path_resolve (BASE_URL (dirname ex_env)) [''./source/examples''])]
             @ rest"
    "\<forall>ev\<in>set rest. \<not> launch_event ev"
    by blast
  then show ?thesis
    using ex_launchCore ex_launchExtensions [of ?s1] by blast
qed

section \<open>Cleanup\<close>







end
